theory Spec2Isabelle
  imports Complex_Main
begin

section \<open>Loss detection (loss.detection.draft19.ts)\<close>

subsection \<open>Data\<close>

text \<open>
  A JavaScript \<open>number\<close> that holds a time or a duration in milliseconds is an exact
  rational here: the arithmetic of the source (sums, differences, products with 2, 4,
  9/8 and powers of two, \<open>Math.max\<close>, \<open>Math.min\<close>) is read without rounding.
  Counters that only move by \<open>++\<close> from 0 are \<open>nat\<close>; counters that are also
  decremented are \<open>int\<close>.
\<close>

type_synonym number = rat

datatype kPacketNumberSpace = Space_Initial | Space_Handshake | Space_ApplicationData

text \<open>
  The enumerations \<open>PacketType\<close> (packet/base.packet, in the version that the two
  source files use) and \<open>EncryptionLevel\<close> (crypto/crypto.context) are not among the
  source files. Their members that the two source files name are given by name; every
  other member is an \<open>OTHER\<close> one.
\<close>

datatype PacketType =
    PacketType_Initial
  | PacketType_Handshake
  | PacketType_Protected0RTT
  | PacketType_Protected1RTT
  | OTHER_PacketType nat

datatype EncryptionLevel = INITIAL | HANDSHAKE | OTHER_EncryptionLevel nat

text \<open>
  What the loss detector reads of a \<open>BasePacket\<close>: \<open>getPacketType()\<close>,
  \<open>getHeader().getPacketNumber().getValue()\<close>, \<open>isRetransmittable()\<close> and
  \<open>isHandshake()\<close>.
\<close>

record BasePacket =
  getPacketType :: PacketType
  getPacketNumber :: nat
  pkt_isRetransmittable :: bool
  pkt_isHandshake :: bool

record SentPacket =
  packet :: BasePacket
  time :: number
  isRetransmittable :: bool

text \<open>
  What the loss detector reads of an \<open>AckFrame\<close>: \<open>getCryptoLevel()\<close> (may be
  undefined), \<open>getLargestAcknowledged()\<close>, \<open>determineAckedPacketNumbers()\<close>, and the
  ack delay that the RTT estimator uses.
\<close>

record AckFrame =
  getCryptoLevel :: "EncryptionLevel option"
  getLargestAcknowledged :: nat
  determineAckedPacketNumbers :: "nat list"
  getAckDelay :: number

record RTTMeasurement =
  latestRtt :: number
  smoothedRtt :: number
  rttVar :: number
  minRtt :: "number option"
  maxAckDelay :: number

text \<open>
  Modelled from the spec: the class \<open>Alarm\<close> (types/alarm) is not among the source
  files. The spec gives it as a cancellable one-shot timer with \<open>start(ms)\<close>,
  \<open>reset()\<close> and \<open>isRunning()\<close>. \<open>None\<close> is a timer that is not running,
  \<open>Some d\<close> one that was started for \<open>d\<close> milliseconds.
\<close>

type_synonym Alarm = "number option"

definition Alarm_reset :: "Alarm \<Rightarrow> Alarm" where
  "Alarm_reset a = None"

definition Alarm_start :: "number \<Rightarrow> Alarm \<Rightarrow> Alarm" where
  "Alarm_start timeInMs a = Some timeInMs"

definition Alarm_isRunning :: "Alarm \<Rightarrow> bool" where
  "Alarm_isRunning a = (a \<noteq> None)"

text \<open>
  What leaves the loss detector: the events it emits to its listeners, and the call of
  \<open>rttMeasurer.updateRTT\<close>.
\<close>

datatype effect =
    PACKET_ACKED BasePacket
  | PACKETS_LOST "BasePacket list"
  | RETRANSMIT_PACKET BasePacket
  | CALL_updateRTT AckFrame SentPacket

text \<open>
  \<open>SentPackets\<close> is a JavaScript object used as a map. Its keys are
  \<open>packetNumber.toString('hex', 8)\<close>, strings of sixteen hexadecimal digits (none
  of them an array index), so \<open>Object.keys\<close> lists them in insertion order. The
  only insertion (line 191) stores a sent packet under the number of its own packet, so
  the map is the list of its values in insertion order and the key of a value is
  \<open>key_of\<close>. A key is kept as the number it renders.
\<close>

type_synonym SentPackets = "SentPacket list"

definition key_of :: "SentPacket \<Rightarrow> nat" where
  "key_of sp = getPacketNumber (packet sp)"

definition Object_keys :: "SentPackets \<Rightarrow> nat list" where
  "Object_keys m = map key_of m"

definition lookup_sent :: "SentPackets \<Rightarrow> nat \<Rightarrow> SentPacket option" where
  "lookup_sent m k = find (\<lambda>sp. key_of sp = k) m"

definition delete_sent :: "nat \<Rightarrow> SentPackets \<Rightarrow> SentPackets" where
  "delete_sent k m = filter (\<lambda>sp. key_of sp \<noteq> k) m"

record QuicLossDetection =
  lossDetectionAlarm :: Alarm
  cryptoCount :: nat
  ptoCount :: nat
  timeOfLastSentAckElicitingPacket :: number
  timeOfLastSentCryptoPacket :: number
  largestAckedPacket :: "kPacketNumberSpace \<Rightarrow> nat"
  lossTime :: "kPacketNumberSpace \<Rightarrow> number"
  sentPackets :: "kPacketNumberSpace \<Rightarrow> SentPackets"
  ackElicitingPacketsOutstanding :: int
  cryptoOutstanding :: int
  rttMeasurer :: RTTMeasurement
  emitted :: "effect list"

subsection \<open>Constants\<close>

definition kPacketThreshold :: int where
  "kPacketThreshold = 3"

definition kTimeThreshold :: number where
  "kTimeThreshold = 9 / 8"

definition kGranularity :: number where
  "kGranularity = 50"

definition kInitialRTT :: number where
  "kInitialRTT = 100"

definition all_spaces :: "kPacketNumberSpace list" where
  "all_spaces = [Space_Initial, Space_Handshake, Space_ApplicationData]"

subsection \<open>Construction and classification\<close>

definition QuicLossDetection_new :: "RTTMeasurement \<Rightarrow> QuicLossDetection" where
  "QuicLossDetection_new rtt =
     \<lparr> lossDetectionAlarm = None,
       cryptoCount = 0,
       ptoCount = 0,
       timeOfLastSentAckElicitingPacket = 0,
       timeOfLastSentCryptoPacket = 0,
       largestAckedPacket = (\<lambda>space. 0),
       lossTime = (\<lambda>space. 0),
       sentPackets = (\<lambda>space. []),
       ackElicitingPacketsOutstanding = 0,
       cryptoOutstanding = 0,
       rttMeasurer = rtt,
       emitted = [] \<rparr>"

definition findPacketSpaceFromPacket :: "BasePacket \<Rightarrow> kPacketNumberSpace" where
  "findPacketSpaceFromPacket p =
     (if getPacketType p = PacketType_Handshake then Space_Handshake
      else if getPacketType p = PacketType_Initial then Space_Initial
      else Space_ApplicationData)"

definition findPacketSpaceFromAckFrame :: "AckFrame \<Rightarrow> kPacketNumberSpace" where
  "findPacketSpaceFromAckFrame frame =
     (if getCryptoLevel frame = Some HANDSHAKE then Space_Handshake
      else if getCryptoLevel frame = Some INITIAL then Space_Initial
      else Space_ApplicationData)"

definition emit :: "effect \<Rightarrow> QuicLossDetection \<Rightarrow> QuicLossDetection" where
  "emit e s = s\<lparr>emitted := emitted s @ [e]\<rparr>"

subsection \<open>The RTT estimator\<close>

text \<open>
  Modelled from the spec: the class \<open>RTTMeasurement\<close> (rtt.measurement) is not among
  the source files. Section 4.3 of the spec gives its update on the acknowledgement of
  the largest acknowledged packet: the latest sample is the time since the packet was
  sent; the minimum follows it; the sample is reduced by the acknowledgement delay
  (at most \<open>maxAckDelay\<close>) when that does not take it below the minimum; the first
  sample sets the smoothed value and half of it as the variance, later samples are
  averaged in with weights 1/8 and 1/4. The first sample is the one taken while the
  minimum is unset.
\<close>

definition updateRTT :: "number \<Rightarrow> AckFrame \<Rightarrow> SentPacket \<Rightarrow> RTTMeasurement \<Rightarrow> RTTMeasurement" where
  "updateRTT now ackFrame sp r =
     (let latest = now - time sp;
          lowest = (case minRtt r of None \<Rightarrow> latest | Some m \<Rightarrow> min m latest);
          delay = min (getAckDelay ackFrame) (maxAckDelay r);
          adjusted = (if lowest \<le> latest - delay then latest - delay else latest)
      in if minRtt r = None
         then r\<lparr>latestRtt := latest, smoothedRtt := adjusted, rttVar := adjusted / 2,
                minRtt := Some lowest\<rparr>
         else r\<lparr>latestRtt := latest,
                smoothedRtt := 7 / 8 * smoothedRtt r + 1 / 8 * adjusted,
                rttVar := 3 / 4 * rttVar r + 1 / 4 * \<bar>smoothedRtt r - adjusted\<bar>,
                minRtt := Some lowest\<rparr>)"

subsection \<open>removeFromSentPackets, getEarliestLossTime, setLossDetectionAlarm\<close>

definition removeFromSentPackets ::
  "kPacketNumberSpace \<Rightarrow> nat \<Rightarrow> QuicLossDetection \<Rightarrow> QuicLossDetection" where
  "removeFromSentPackets space packetNumber s =
     (case lookup_sent (sentPackets s space) packetNumber of
        None \<Rightarrow> s
      | Some found \<Rightarrow>
          (let s1 = (if pkt_isRetransmittable (packet found)
                     then s\<lparr>ackElicitingPacketsOutstanding := ackElicitingPacketsOutstanding s - 1\<rparr>
                     else s);
               s2 = (if pkt_isHandshake (packet found)
                     then s1\<lparr>cryptoOutstanding := cryptoOutstanding s1 - 1\<rparr>
                     else s1)
           in s2\<lparr>sentPackets := (sentPackets s2)(space := delete_sent packetNumber (sentPackets s2 space))\<rparr>))"

definition getEarliestLossTime_step ::
  "QuicLossDetection \<Rightarrow> number \<times> kPacketNumberSpace \<Rightarrow> kPacketNumberSpace \<Rightarrow> number \<times> kPacketNumberSpace" where
  "getEarliestLossTime_step s acc pnSpace =
     (if lossTime s pnSpace \<noteq> 0 \<and> (fst acc = 0 \<or> lossTime s pnSpace < fst acc)
      then (lossTime s pnSpace, pnSpace)
      else acc)"

definition getEarliestLossTime :: "QuicLossDetection \<Rightarrow> number \<times> kPacketNumberSpace" where
  "getEarliestLossTime s =
     foldl (getEarliestLossTime_step s) (lossTime s Space_Initial, Space_Initial)
       [Space_Handshake, Space_ApplicationData]"

text \<open>
  The body of \<open>setLossDetectionAlarm\<close> between the early return and the start of the
  timer: the locals \<open>alarmDuration\<close> and \<open>time\<close>. The source assigns \<open>time\<close>
  (line 347, line 360) and never reads it.
\<close>

definition alarmDuration_and_time :: "QuicLossDetection \<Rightarrow> number \<times> number" where
  "alarmDuration_and_time s =
     (let time0 = timeOfLastSentAckElicitingPacket s;
          earliestLoss = fst (getEarliestLossTime s);
          r = rttMeasurer s
      in if cryptoOutstanding s \<noteq> 0 then
           (let d0 = (if smoothedRtt r = 0 then kInitialRTT * 2 else smoothedRtt r * 2);
                d1 = max (d0 + maxAckDelay r) kGranularity;
                pw = 2 ^ cryptoCount s
            in (d1 * pw, timeOfLastSentCryptoPacket s))
         else if earliestLoss \<noteq> 0 then
           (earliestLoss - timeOfLastSentAckElicitingPacket s, time0)
         else
           (let d0 = smoothedRtt r + rttVar r * 4 + maxAckDelay r;
                d1 = max d0 kGranularity
            in (d1 * 2 ^ ptoCount s, time0)))"

definition setLossDetectionAlarm :: "QuicLossDetection \<Rightarrow> QuicLossDetection" where
  "setLossDetectionAlarm s =
     (if ackElicitingPacketsOutstanding s = 0
      then s\<lparr>lossDetectionAlarm := Alarm_reset (lossDetectionAlarm s)\<rparr>
      else
        (let alarmDuration = fst (alarmDuration_and_time s)
         in if \<not> Alarm_isRunning (lossDetectionAlarm s)
            then s\<lparr>lossDetectionAlarm := Alarm_start alarmDuration (lossDetectionAlarm s)\<rparr>
            else s))"

subsection \<open>onPacketSent\<close>

text \<open>
  \<open>now\<close> is the value of \<open>(new Date()).getTime()\<close>. A packet number that is already
  in the map of its space is logged as an error and not stored (lines 183 to 187); the
  counters have been raised before that test.
\<close>

definition onPacketSent :: "number \<Rightarrow> BasePacket \<Rightarrow> QuicLossDetection \<Rightarrow> QuicLossDetection" where
  "onPacketSent now basePacket s =
     (let space = findPacketSpaceFromPacket basePacket;
          packetNumber = getPacketNumber basePacket;
          sentPacket = \<lparr> packet = basePacket, time = now,
                         isRetransmittable = pkt_isRetransmittable basePacket \<rparr>;
          s1 = (if pkt_isHandshake basePacket
                then s\<lparr>cryptoOutstanding := cryptoOutstanding s + 1,
                       timeOfLastSentCryptoPacket := now\<rparr>
                else s);
          s2 = (if pkt_isRetransmittable basePacket
                then s1\<lparr>ackElicitingPacketsOutstanding := ackElicitingPacketsOutstanding s1 + 1,
                        timeOfLastSentAckElicitingPacket := now\<rparr>
                else s1);
          s3 = setLossDetectionAlarm s2
      in case lookup_sent (sentPackets s3 space) packetNumber of
           Some already \<Rightarrow> s3
         | None \<Rightarrow> s3\<lparr>sentPackets := (sentPackets s3)(space := sentPackets s3 space @ [sentPacket])\<rparr>)"

subsection \<open>detectLostPackets\<close>

text \<open>
  Line 424 iterates over \<open>Object.keys(this.sendPackets)\<close>. \<open>sendPackets\<close> is the
  method of line 471, not the field \<open>sentPackets\<close>; a function object has no
  enumerable own property, so the list of keys is empty.
\<close>

definition Object_keys_of_method_sendPackets :: "nat list" where
  "Object_keys_of_method_sendPackets = []"

text \<open>
  The locals that \<open>detectLostPackets\<close> computes before its loop (lines 414 to 421):
  \<open>lossDelay\<close>, \<open>lostSendTime\<close> and \<open>lostPN\<close>. \<open>Bignum\<close> is not among the
  source files: its \<open>subtract\<close> is read as subtraction of integers and its comparisons
  as comparisons of numbers.
\<close>

definition lossDelay_of :: "QuicLossDetection \<Rightarrow> number" where
  "lossDelay_of s = kTimeThreshold * max (latestRtt (rttMeasurer s)) (smoothedRtt (rttMeasurer s))"

definition lostSendTime_of :: "number \<Rightarrow> QuicLossDetection \<Rightarrow> number" where
  "lostSendTime_of now s = now - lossDelay_of s"

definition lostPN_of :: "kPacketNumberSpace \<Rightarrow> QuicLossDetection \<Rightarrow> int" where
  "lostPN_of space s = int (largestAckedPacket s space) - kPacketThreshold"

text \<open>
  The callback of the \<open>forEach\<close> of line 424, for one key. A key without an entry in
  the map of the space (\<open>unacked\<close> undefined) is passed over.
\<close>

definition detectLostPackets_each ::
  "kPacketNumberSpace \<Rightarrow> number \<Rightarrow> number \<Rightarrow> int \<Rightarrow> QuicLossDetection \<times> BasePacket list \<Rightarrow> nat
     \<Rightarrow> QuicLossDetection \<times> BasePacket list" where
  "detectLostPackets_each space lossDelay lostSendTime lostPN acc key =
     (let s = fst acc;
          lostPackets = snd acc
      in if key > largestAckedPacket s space then acc
         else
           (case lookup_sent (sentPackets s space) key of
              None \<Rightarrow> acc
            | Some unacked \<Rightarrow>
                if time unacked \<le> lostSendTime \<or> int (getPacketNumber (packet unacked)) \<le> lostPN
                then (removeFromSentPackets space key s, lostPackets @ [packet unacked])
                else
                  (s\<lparr>lossTime := (lossTime s)(space :=
                        (if lossTime s space = 0 then time unacked + lossDelay
                         else min (lossTime s space) (time unacked + lossDelay)))\<rparr>,
                   lostPackets)))"

definition detectLostPackets_after ::
  "kPacketNumberSpace \<Rightarrow> QuicLossDetection \<Rightarrow> BasePacket \<Rightarrow> QuicLossDetection" where
  "detectLostPackets_after space s p =
     (case lookup_sent (sentPackets s space) (getPacketNumber p) of
        None \<Rightarrow> s
      | Some sentPacket \<Rightarrow>
          if pkt_isHandshake (packet sentPacket)
          then s\<lparr>cryptoOutstanding := cryptoOutstanding s - 1\<rparr>
          else s)"

definition detectLostPackets ::
  "number \<Rightarrow> kPacketNumberSpace \<Rightarrow> QuicLossDetection \<Rightarrow> QuicLossDetection" where
  "detectLostPackets now space s =
     (let s0 = s\<lparr>lossTime := (lossTime s)(space := 0)\<rparr>;
          lossDelay = lossDelay_of s0;
          lostSendTime = lostSendTime_of now s0;
          lostPN = lostPN_of space s0;
          looped = foldl (detectLostPackets_each space lossDelay lostSendTime lostPN) (s0, [])
                     Object_keys_of_method_sendPackets;
          s1 = fst looped;
          lostPackets = snd looped
      in if length lostPackets > 0
         then foldl (detectLostPackets_after space) (emit (PACKETS_LOST lostPackets) s1) lostPackets
         else s1)"

subsection \<open>onAckReceived\<close>

definition updateRtt :: "number \<Rightarrow> AckFrame \<Rightarrow> QuicLossDetection \<Rightarrow> QuicLossDetection" where
  "updateRtt now ackFrame s =
     (let space = findPacketSpaceFromAckFrame ackFrame
      in case lookup_sent (sentPackets s space) (getLargestAcknowledged ackFrame) of
           None \<Rightarrow> s
         | Some largestAcknowledgedPacket \<Rightarrow>
             if isRetransmittable largestAcknowledgedPacket
             then emit (CALL_updateRTT ackFrame largestAcknowledgedPacket)
                    (s\<lparr>rttMeasurer := updateRTT now ackFrame largestAcknowledgedPacket (rttMeasurer s)\<rparr>)
             else s)"

definition determineNewlyAckedPackets :: "AckFrame \<Rightarrow> QuicLossDetection \<Rightarrow> BasePacket list" where
  "determineNewlyAckedPackets receivedAckFrame s =
     concat (map (\<lambda>packetnumber.
               concat (map (\<lambda>space.
                         (case lookup_sent (sentPackets s space) packetnumber of
                            None \<Rightarrow> []
                          | Some foundPacket \<Rightarrow> [packet foundPacket]))
                       all_spaces))
             (determineAckedPacketNumbers receivedAckFrame))"

definition onSentPacketAcked :: "QuicLossDetection \<Rightarrow> BasePacket \<Rightarrow> QuicLossDetection" where
  "onSentPacketAcked s sentPacket =
     (let ackedPacketNumber = getPacketNumber sentPacket;
          s1 = (if pkt_isRetransmittable sentPacket then emit (PACKET_ACKED sentPacket) s else s)
      in removeFromSentPackets (findPacketSpaceFromPacket sentPacket) ackedPacketNumber s1)"

definition onAckReceived :: "number \<Rightarrow> AckFrame \<Rightarrow> QuicLossDetection \<Rightarrow> QuicLossDetection" where
  "onAckReceived now ackFrame s =
     (let space = findPacketSpaceFromAckFrame ackFrame;
          s1 = s\<lparr>largestAckedPacket := (largestAckedPacket s)(space :=
                   max (getLargestAcknowledged ackFrame) (largestAckedPacket s space))\<rparr>;
          s2 = updateRtt now ackFrame s1;
          s3 = foldl onSentPacketAcked s2 (determineNewlyAckedPackets ackFrame s2);
          s4 = detectLostPackets now space s3;
          s5 = s4\<lparr>cryptoCount := 0, ptoCount := 0\<rparr>
      in setLossDetectionAlarm s5)"

subsection \<open>Retransmission: sendPackets, retransmitAllUnackedHandshakeData\<close>

definition retransmitPacket :: "SentPacket \<Rightarrow> QuicLossDetection \<Rightarrow> QuicLossDetection" where
  "retransmitPacket sentPacket s =
     (if pkt_isRetransmittable (packet sentPacket)
      then emit (RETRANSMIT_PACKET (packet sentPacket)) s
      else s)"

text \<open>
  The \<open>while\<close> loop of \<open>sendPackets\<close> over the keys that \<open>Object.keys\<close> listed before
  the loop; the entry of a key is read from the map as it is in that iteration. The
  third component of the result tells that the method has returned (line 496). A key
  without an entry is passed over.
\<close>

fun sendPackets_while ::
  "nat \<Rightarrow> kPacketNumberSpace \<Rightarrow> nat list \<Rightarrow> nat \<Rightarrow> QuicLossDetection
     \<Rightarrow> QuicLossDetection \<times> nat \<times> bool" where
  "sendPackets_while amount space [] sendCount s = (s, sendCount, False)"
| "sendPackets_while amount space (key # keys) sendCount s =
     (case lookup_sent (sentPackets s space) key of
        None \<Rightarrow> sendPackets_while amount space keys sendCount s
      | Some found \<Rightarrow>
          if pkt_isRetransmittable (packet found)
          then
            (let s1 = retransmitPacket found s;
                 s2 = removeFromSentPackets space (getPacketNumber (packet found)) s1
             in if sendCount + 1 = amount then (s2, sendCount + 1, True)
                else sendPackets_while amount space keys (sendCount + 1) s2)
          else sendPackets_while amount space keys sendCount s)"

fun sendPackets_for ::
  "nat \<Rightarrow> kPacketNumberSpace list \<Rightarrow> nat \<Rightarrow> QuicLossDetection \<Rightarrow> QuicLossDetection" where
  "sendPackets_for amount [] sendCount s = s"
| "sendPackets_for amount (space # spaces) sendCount s =
     (case sendPackets_while amount space (Object_keys (sentPackets s space)) sendCount s of
        (s1, sendCount1, returned) \<Rightarrow>
          if returned then s1 else sendPackets_for amount spaces sendCount1 s1)"

definition sendPackets :: "nat \<Rightarrow> QuicLossDetection \<Rightarrow> QuicLossDetection" where
  "sendPackets amount s = sendPackets_for amount all_spaces 0 s"

definition sendTwoPackets :: "QuicLossDetection \<Rightarrow> QuicLossDetection" where
  "sendTwoPackets s = sendPackets 2 s"

definition retransmitAll_each ::
  "kPacketNumberSpace \<Rightarrow> QuicLossDetection \<Rightarrow> nat \<Rightarrow> QuicLossDetection" where
  "retransmitAll_each space s key =
     (case lookup_sent (sentPackets s space) key of
        None \<Rightarrow> s
      | Some found \<Rightarrow>
          if pkt_isHandshake (packet found)
          then removeFromSentPackets space (getPacketNumber (packet found)) (retransmitPacket found s)
          else s)"

definition retransmitAllUnackedHandshakeData :: "QuicLossDetection \<Rightarrow> QuicLossDetection" where
  "retransmitAllUnackedHandshakeData s =
     foldl (\<lambda>s1 space. foldl (retransmitAll_each space) s1 (Object_keys (sentPackets s1 space)))
       s all_spaces"

subsection \<open>The alarm fires; reset\<close>

definition onLossDetectionAlarm :: "number \<Rightarrow> QuicLossDetection \<Rightarrow> QuicLossDetection" where
  "onLossDetectionAlarm now s =
     (let earliestLossTime = fst (getEarliestLossTime s);
          space = snd (getEarliestLossTime s);
          s1 = (if cryptoOutstanding s > 0
                then (let s0 = retransmitAllUnackedHandshakeData s
                      in s0\<lparr>cryptoCount := cryptoCount s0 + 1\<rparr>)
                else if earliestLossTime \<noteq> 0
                then detectLostPackets now space s
                else (let s0 = sendTwoPackets s
                      in s0\<lparr>ptoCount := ptoCount s0 + 1\<rparr>))
      in setLossDetectionAlarm s1)"

text \<open>
  The listener that \<open>setLossDetectionAlarm\<close> registers for the timeout of the alarm
  (lines 374 to 378): it resets the alarm and calls \<open>onLossDetectionAlarm\<close>.
\<close>

definition alarm_TIMEOUT :: "number \<Rightarrow> QuicLossDetection \<Rightarrow> QuicLossDetection" where
  "alarm_TIMEOUT now s =
     onLossDetectionAlarm now (s\<lparr>lossDetectionAlarm := Alarm_reset (lossDetectionAlarm s)\<rparr>)"

definition reset :: "QuicLossDetection \<Rightarrow> QuicLossDetection" where
  "reset s =
     s\<lparr>lossDetectionAlarm := Alarm_reset (lossDetectionAlarm s),
       sentPackets := (\<lambda>space. [])\<rparr>"

text \<open>The entry points of the loss detector, and a run of them from a state.\<close>

datatype operation =
    OnPacketSent number BasePacket
  | OnAckReceived number AckFrame
  | AlarmFires number
  | Reset

fun perform :: "QuicLossDetection \<Rightarrow> operation \<Rightarrow> QuicLossDetection" where
  "perform s (OnPacketSent now p) = onPacketSent now p s"
| "perform s (OnAckReceived now a) = onAckReceived now a s"
| "perform s (AlarmFires now) = alarm_TIMEOUT now s"
| "perform s Reset = reset s"

definition run :: "operation list \<Rightarrow> QuicLossDetection \<Rightarrow> QuicLossDetection" where
  "run ops s = foldl perform s ops"

section \<open>Header handling (header.handler.ts)\<close>

subsection \<open>Data\<close>

datatype HeaderType = LongHeader | ShortHeader | VersionNegotiationHeader

datatype LongHeaderType =
    LongHeaderType_Initial
  | LongHeaderType_Protected0RTT
  | LongHeaderType_Handshake
  | LongHeaderType_Retry

datatype EndpointType = Client | Server

text \<open>
  The enumeration \<open>HandshakeState\<close> (crypto/qtls) is not among the source files. The
  handler names its member \<open>SERVER_HELLO\<close> only; every other member is an
  \<open>OTHER_HandshakeState\<close>.
\<close>

datatype HandshakeState = SERVER_HELLO | OTHER_HandshakeState nat

datatype ConnectionErrorCodes = VERSION_NEGOTIATION_ERROR | PROTOCOL_VIOLATION

datatype QuickerErrorCodes = IGNORE_PACKET_ERROR

text \<open>
  What the handler throws: its two classes of errors (the text of a \<open>QuicError\<close> is
  left out), and the \<open>RangeError\<close> of \<open>Buffer.copy\<close> for a negative start in the
  source (line 47, when the parsed bytes of the header are fewer than four).
\<close>

datatype thrown = QuicError ConnectionErrorCodes | QuickerError QuickerErrorCodes | RangeError

type_synonym Buffer = "nat list"

type_synonym Version = nat

text \<open>
  What the handler reads and writes of a header: the fields of a long header
  (\<open>lh_getPacketType\<close>, \<open>getVersion\<close>, \<open>getPayloadLength\<close>), the spin bit of a short
  header, and the packet number, its size and the parsed bytes of either.
\<close>

record Header =
  getHeaderType :: HeaderType
  lh_getPacketType :: LongHeaderType
  getVersion :: Version
  getPayloadLength :: int
  getSpinBit :: bool
  hdr_getPacketNumber :: nat
  getPacketNumberSize :: nat
  getParsedBuffer :: Buffer

record HeaderOffset =
  header :: Header
  offset :: int

text \<open>
  What the handler reads and writes of the connection: the endpoint type, the version,
  the handshake state of its TLS object, the initial destination connection ID, the
  spin bit, and the highest received packet number of each packet number space
  (undefined before the first packet of the space).
\<close>

record Connection =
  getEndpointType :: EndpointType
  conn_getVersion :: Version
  getHandshakeState :: HandshakeState
  getInitialDestConnectionID :: Buffer
  conn_getSpinBit :: bool
  getHighestReceivedNumber :: "kPacketNumberSpace \<Rightarrow> nat option"

text \<open>
  The functions of other classes that the handler calls and that are not among the
  source files; the handler is read for any such functions.
  \<open>validateVersion\<close> is \<open>VersionValidation.validateVersion\<close> (undefined when no
  version can be negotiated); the four \<open>PnDecrypt\<close> functions are those of the AEAD
  object; \<open>decodePn\<close> is \<open>VLIE.decodePn\<close> (value and number of bytes);
  \<open>adjustNumber\<close> is \<open>PacketNumber.adjustNumber\<close> of the highest received number;
  \<open>toBuffer\<close> is \<open>Bignum.toBuffer\<close>.
\<close>

record Collaborators =
  validateVersion :: "Version \<Rightarrow> Header \<Rightarrow> Version option"
  protected0RTTPnDecrypt :: "Buffer \<Rightarrow> Header \<Rightarrow> Buffer \<Rightarrow> EndpointType \<Rightarrow> Buffer"
  protectedHandshakePnDecrypt :: "Buffer \<Rightarrow> Header \<Rightarrow> Buffer \<Rightarrow> EndpointType \<Rightarrow> Buffer"
  clearTextPnDecrypt :: "Buffer \<Rightarrow> Buffer \<Rightarrow> Header \<Rightarrow> Buffer \<Rightarrow> EndpointType \<Rightarrow> Buffer"
  protected1RTTPnDecrypt :: "Buffer \<Rightarrow> Header \<Rightarrow> Buffer \<Rightarrow> EndpointType \<Rightarrow> Buffer"
  decodePn :: "Buffer \<Rightarrow> nat \<times> nat"
  adjustNumber :: "nat \<Rightarrow> nat \<Rightarrow> nat \<Rightarrow> nat"
  toBuffer :: "nat \<Rightarrow> nat \<Rightarrow> Buffer"

text \<open>
  Modelled from the spec: \<open>Connection.getEncryptionContextByPacketType\<close> and the
  packet number space of an encryption context are not among the source files. By the
  spec the Initial and Handshake types have their namesake spaces, and 0-RTT and 1-RTT
  both belong to the application data space.
\<close>

definition getPacketNumberSpace_of :: "PacketType \<Rightarrow> kPacketNumberSpace" where
  "getPacketNumberSpace_of t =
     (if t = PacketType_Initial then Space_Initial
      else if t = PacketType_Handshake then Space_Handshake
      else Space_ApplicationData)"

text \<open>
  Modelled from the spec: a candidate for \<open>adjustNumber\<close>, used where a concrete
  function is needed. The spec reconstructs, from the truncated value of \<open>bytes\<close>
  bytes and the expected number (the highest received plus one), the number congruent
  to the truncated value that is closest to the expected one, the higher one on a tie.
\<close>

definition adjustNumber_spec :: "nat \<Rightarrow> nat \<Rightarrow> nat \<Rightarrow> nat" where
  "adjustNumber_spec highest truncated bytes =
     (let win = 2 ^ (8 * bytes);
          expected = highest + 1;
          candidate = (expected div win) * win + truncated mod win
      in if candidate + win div 2 \<le> expected then candidate + win
         else if expected + win div 2 < candidate \<and> win \<le> candidate then candidate - win
         else candidate)"

subsection \<open>The handler\<close>

definition handleClientVersion :: "Collaborators \<Rightarrow> Connection \<Rightarrow> Header \<Rightarrow> thrown + Version" where
  "handleClientVersion C connection longHeader =
     (case validateVersion C (conn_getVersion connection) longHeader of
        None \<Rightarrow>
          if lh_getPacketType longHeader = LongHeaderType_Initial
          then Inl (QuicError VERSION_NEGOTIATION_ERROR)
          else if lh_getPacketType longHeader = LongHeaderType_Protected0RTT
                  \<or> getHandshakeState connection = SERVER_HELLO
          then Inl (QuickerError IGNORE_PACKET_ERROR)
          else Inl (QuicError PROTOCOL_VIOLATION)
      | Some negotiatedVersion \<Rightarrow> Inr negotiatedVersion)"

definition handleLongHeader :: "Connection \<Rightarrow> Header \<Rightarrow> bool \<Rightarrow> Connection" where
  "handleLongHeader connection longHeader highestCurrentPacketNumber = connection"

definition handleShortHeader :: "Connection \<Rightarrow> Header \<Rightarrow> bool \<Rightarrow> Connection" where
  "handleShortHeader connection shortHeader highestCurrentPacketNumber =
     (if highestCurrentPacketNumber
      then (let spinbit = (if getEndpointType connection = Client
                           then \<not> getSpinBit shortHeader
                           else getSpinBit shortHeader)
            in connection\<lparr>conn_getSpinBit := spinbit\<rparr>)
      else connection)"

text \<open>Lines 48 to 65: the AEAD function is chosen by the form and type of the header.\<close>

definition decryptPacketNumber ::
  "Collaborators \<Rightarrow> Connection \<Rightarrow> Header \<Rightarrow> Buffer \<Rightarrow> Buffer \<Rightarrow> EndpointType \<Rightarrow> Buffer \<times> PacketType" where
  "decryptPacketNumber C connection header0 pne fullPayload encryptingEndpoint =
     (if getHeaderType header0 = LongHeader then
        (if lh_getPacketType header0 = LongHeaderType_Protected0RTT
         then (protected0RTTPnDecrypt C pne header0 fullPayload encryptingEndpoint,
               PacketType_Protected0RTT)
         else if lh_getPacketType header0 = LongHeaderType_Handshake
         then (protectedHandshakePnDecrypt C pne header0 fullPayload encryptingEndpoint,
               PacketType_Handshake)
         else (clearTextPnDecrypt C (getInitialDestConnectionID connection) pne header0
                 fullPayload encryptingEndpoint,
               PacketType_Initial))
      else (protected1RTTPnDecrypt C pne header0 fullPayload encryptingEndpoint,
            PacketType_Protected1RTT))"

text \<open>
  Lines 75 to 91: the highest received number of the space is set or raised, and the
  packet number of the header is adjusted. The third component is
  \<open>highestCurrentPacketNumber\<close>.
\<close>

definition adjustRemotePacketNumber ::
  "Collaborators \<Rightarrow> Connection \<Rightarrow> kPacketNumberSpace \<Rightarrow> Header \<Rightarrow> Connection \<times> Header \<times> bool" where
  "adjustRemotePacketNumber C connection pnSpace header1 =
     (case getHighestReceivedNumber connection pnSpace of
        None \<Rightarrow>
          (connection\<lparr>getHighestReceivedNumber := (getHighestReceivedNumber connection)
                        (pnSpace := Some (hdr_getPacketNumber header1))\<rparr>,
           header1, True)
      | Some highestReceivedNumber \<Rightarrow>
          (let adjustedNumber = adjustNumber C highestReceivedNumber
                                  (hdr_getPacketNumber header1) (getPacketNumberSize header1)
           in ((if highestReceivedNumber < adjustedNumber
                then connection\<lparr>getHighestReceivedNumber := (getHighestReceivedNumber connection)
                                   (pnSpace := Some adjustedNumber)\<rparr>
                else connection),
               header1\<lparr>hdr_getPacketNumber := adjustedNumber\<rparr>,
               highestReceivedNumber < adjustedNumber)))"

text \<open>Lines 96 to 107: the work that depends on the form of the header, and the result.\<close>

definition handle_tail ::
  "Connection \<Rightarrow> Header \<Rightarrow> bool \<Rightarrow> nat \<Rightarrow> int \<Rightarrow> Connection \<times> HeaderOffset" where
  "handle_tail connection1 header2 highestCurrentPacketNumber decodedOffset offset1 =
     (if getHeaderType header2 = LongHeader then
        (let lh = header2\<lparr>getPayloadLength := getPayloadLength header2 - int decodedOffset\<rparr>
         in (handleLongHeader connection1 lh highestCurrentPacketNumber,
             \<lparr> header = lh, offset = offset1 \<rparr>))
      else if getHeaderType header2 = ShortHeader then
        (handleShortHeader connection1 header2 highestCurrentPacketNumber,
         \<lparr> header = header2, offset = offset1 \<rparr>)
      else (connection1, \<lparr> header = header2, offset = offset1 \<rparr>))"

text \<open>
  The handler from line 41 on, after the copy of the last four parsed bytes has
  succeeded: the packet number is unmasked, decoded and adjusted. The offset of the
  payload is read as not negative.
\<close>

definition handle_unmasked ::
  "Collaborators \<Rightarrow> Connection \<Rightarrow> HeaderOffset \<Rightarrow> Buffer \<Rightarrow> EndpointType \<Rightarrow> Connection \<times> HeaderOffset" where
  "handle_unmasked C connection headerOffset msg encryptingEndpoint =
     (let header0 = header headerOffset;
          payload = drop (nat (offset headerOffset)) msg;
          parsed = getParsedBuffer header0;
          fullPayload = parsed @ payload;
          pne = drop (length parsed - 4) parsed;
          pn_and_type = decryptPacketNumber C connection header0 pne fullPayload encryptingEndpoint;
          actualPacketType = snd pn_and_type;
          decodedPnVlieOffset = decodePn C (fst pn_and_type);
          offset1 = offset headerOffset - 4 + int (snd decodedPnVlieOffset);
          header1 = header0\<lparr>hdr_getPacketNumber := fst decodedPnVlieOffset,
                            getParsedBuffer := take (length parsed - 4) parsed
                              @ toBuffer C (fst decodedPnVlieOffset) (snd decodedPnVlieOffset)\<rparr>;
          pnSpace = getPacketNumberSpace_of actualPacketType;
          adjusted = adjustRemotePacketNumber C connection pnSpace header1
      in handle_tail (fst adjusted) (fst (snd adjusted)) (snd (snd adjusted))
           (snd decodedPnVlieOffset) offset1)"

definition handle_packetNumber ::
  "Collaborators \<Rightarrow> Connection \<Rightarrow> HeaderOffset \<Rightarrow> Buffer \<Rightarrow> EndpointType
     \<Rightarrow> thrown + Connection \<times> HeaderOffset" where
  "handle_packetNumber C connection headerOffset msg encryptingEndpoint =
     (if length (getParsedBuffer (header headerOffset)) < 4 then Inl RangeError
      else Inr (handle_unmasked C connection headerOffset msg encryptingEndpoint))"

definition handle ::
  "Collaborators \<Rightarrow> Connection \<Rightarrow> HeaderOffset \<Rightarrow> Buffer \<Rightarrow> EndpointType
     \<Rightarrow> thrown + Connection \<times> HeaderOffset" where
  "handle C connection headerOffset msg encryptingEndpoint =
     (let header0 = header headerOffset;
          gate = (if getHeaderType header0 = LongHeader \<and> getEndpointType connection = Server
                  then (case handleClientVersion C connection header0 of
                          Inl e \<Rightarrow> Inl e
                        | Inr negotiatedVersion \<Rightarrow>
                            Inr (connection\<lparr>conn_getVersion := negotiatedVersion\<rparr>))
                  else Inr connection)
      in case gate of
           Inl e \<Rightarrow> Inl e
         | Inr connection1 \<Rightarrow>
             if getHeaderType header0 = VersionNegotiationHeader
             then Inr (connection1, \<lparr> header = header0, offset = offset headerOffset \<rparr>)
             else handle_packetNumber C connection1 headerOffset msg encryptingEndpoint)"

section \<open>Notions used in the statements\<close>

text \<open>The effects that a step from \<open>s\<close> to \<open>s'\<close> has added.\<close>

definition new_effects :: "QuicLossDetection \<Rightarrow> QuicLossDetection \<Rightarrow> effect list" where
  "new_effects s s' = drop (length (emitted s)) (emitted s')"

fun is_CALL_updateRTT :: "effect \<Rightarrow> bool" where
  "is_CALL_updateRTT (CALL_updateRTT a sp) = True"
| "is_CALL_updateRTT e = False"

text \<open>The packet \<open>p\<close> is reported as acknowledged or as lost among the effects.\<close>

fun reports :: "BasePacket \<Rightarrow> effect \<Rightarrow> bool" where
  "reports p (PACKET_ACKED q) = (q = p)"
| "reports p (PACKETS_LOST ps) = (p \<in> set ps)"
| "reports p e = False"

definition acked_or_lost :: "BasePacket \<Rightarrow> effect list \<Rightarrow> bool" where
  "acked_or_lost p es = list_ex (reports p) es"

text \<open>
  The number of sent packets, over the three spaces, whose \<open>isRetransmittable\<close> is
  true, and how far the counter of ack-eliciting packets is from it.
\<close>

definition count_ackEliciting :: "QuicLossDetection \<Rightarrow> int" where
  "count_ackEliciting s =
     (\<Sum>space\<leftarrow>all_spaces. int (length (filter isRetransmittable (sentPackets s space))))"

definition drift :: "QuicLossDetection \<Rightarrow> int" where
  "drift s = ackElicitingPacketsOutstanding s - count_ackEliciting s"

text \<open>
  A map as \<open>onPacketSent\<close> builds it: no key twice, the stored \<open>isRetransmittable\<close> is
  that of the packet, and the packet belongs to the space of the map.
\<close>

definition sent_wf_space :: "kPacketNumberSpace \<Rightarrow> SentPackets \<Rightarrow> bool" where
  "sent_wf_space space m =
     (distinct (Object_keys m) \<and>
      list_all (\<lambda>sp. isRetransmittable sp = pkt_isRetransmittable (packet sp) \<and>
                      findPacketSpaceFromPacket (packet sp) = space) m)"

definition sent_wf :: "QuicLossDetection \<Rightarrow> bool" where
  "sent_wf s = list_all (\<lambda>space. sent_wf_space space (sentPackets s space)) all_spaces"

text \<open>
  The sent packets of the three spaces in the order in which \<open>sendPackets\<close> scans them,
  each with its space, and the first two of them whose packet is retransmittable.
\<close>

definition outstanding :: "QuicLossDetection \<Rightarrow> (kPacketNumberSpace \<times> SentPacket) list" where
  "outstanding s = concat (map (\<lambda>space. map (Pair space) (sentPackets s space)) all_spaces)"

definition pto_probes :: "QuicLossDetection \<Rightarrow> (kPacketNumberSpace \<times> SentPacket) list" where
  "pto_probes s = take 2 (filter (\<lambda>e. pkt_isRetransmittable (packet (snd e))) (outstanding s))"

text \<open>The operation registers a packet with number \<open>k\<close> in the space \<open>space\<close>.\<close>

fun registers :: "kPacketNumberSpace \<Rightarrow> nat \<Rightarrow> operation \<Rightarrow> bool" where
  "registers space k (OnPacketSent now p) =
     (findPacketSpaceFromPacket p = space \<and> getPacketNumber p = k)"
| "registers space k opn = False"

text \<open>
  An operation that keeps the counter of ack-eliciting packets in step with the maps:
  a packet is registered under a number that its space does not hold, and \<open>reset\<close> is
  called while no ack-eliciting packet is in a map. A run of such operations.
\<close>

fun proper :: "QuicLossDetection \<Rightarrow> operation \<Rightarrow> bool" where
  "proper s (OnPacketSent now p) =
     (lookup_sent (sentPackets s (findPacketSpaceFromPacket p)) (getPacketNumber p) = None)"
| "proper s Reset = (count_ackEliciting s = 0)"
| "proper s opn = True"

fun well_used :: "QuicLossDetection \<Rightarrow> operation list \<Rightarrow> bool" where
  "well_used s [] = True"
| "well_used s (opn # ops) = (proper s opn \<and> well_used (perform s opn) ops)"

text \<open>
  The duration of the crypto retransmission mode: twice the smoothed RTT (the initial
  RTT of 100 ms while the smoothed RTT is 0) plus the maximal acknowledgement delay, at
  least 50 ms, doubled for every crypto retransmission so far.
\<close>

definition crypto_duration :: "QuicLossDetection \<Rightarrow> number" where
  "crypto_duration s =
     max (2 * (if smoothedRtt (rttMeasurer s) = 0 then 100 else smoothedRtt (rttMeasurer s))
            + maxAckDelay (rttMeasurer s)) 50 * 2 ^ cryptoCount s"

section \<open>Notions used in the proofs\<close>

text \<open>The packet of a sent packet is retransmittable.\<close>

definition retr :: "SentPacket \<Rightarrow> bool" where
  "retr sp = pkt_isRetransmittable (packet sp)"

text \<open>
  The state after the packets \<open>chosen\<close> of one space have been sent as probes; the
  probes that come from one space; the state after all probes were sent.
\<close>

definition probed :: "kPacketNumberSpace \<Rightarrow> SentPacket list \<Rightarrow> QuicLossDetection \<Rightarrow> QuicLossDetection" where
  "probed space chosen s =
     s\<lparr>emitted := emitted s @ map (\<lambda>sp. RETRANSMIT_PACKET (packet sp)) chosen,
       ackElicitingPacketsOutstanding := ackElicitingPacketsOutstanding s - int (length chosen),
       cryptoOutstanding := cryptoOutstanding s
          - int (length (filter (\<lambda>sp. pkt_isHandshake (packet sp)) chosen)),
       sentPackets := (sentPackets s)(space :=
          filter (\<lambda>sp. key_of sp \<notin> set (map key_of chosen)) (sentPackets s space))\<rparr>"

definition chosen_in :: "kPacketNumberSpace \<Rightarrow> QuicLossDetection \<Rightarrow> SentPacket list" where
  "chosen_in space s = map snd (filter (\<lambda>e. fst e = space) (pto_probes s))"

definition after_probes :: "QuicLossDetection \<Rightarrow> QuicLossDetection" where
  "after_probes s =
     probed Space_ApplicationData (chosen_in Space_ApplicationData s)
       (probed Space_Handshake (chosen_in Space_Handshake s)
          (probed Space_Initial (chosen_in Space_Initial s) s))"

fun is_RETRANSMIT_PACKET :: "effect \<Rightarrow> bool" where
  "is_RETRANSMIT_PACKET (RETRANSMIT_PACKET p) = True"
| "is_RETRANSMIT_PACKET e = False"

text \<open>
  A step that adds no sent packet to a map: every map of \<open>s'\<close> is the map of \<open>s\<close>
  without some entries. A removal is such a step that keeps the counter as far from
  the maps as it was, when the maps were well formed. A step that only removes emits,
  besides, retransmissions only: the effects of \<open>s'\<close> are those of \<open>s\<close> followed by
  retransmissions.
\<close>

definition shrinks :: "QuicLossDetection \<Rightarrow> QuicLossDetection \<Rightarrow> bool" where
  "shrinks s s' =
     (\<exists>keep. \<forall>space. sentPackets s' space = filter (keep space) (sentPackets s space))"

definition removal :: "QuicLossDetection \<Rightarrow> QuicLossDetection \<Rightarrow> bool" where
  "removal s s' = (shrinks s s' \<and> (sent_wf s \<longrightarrow> drift s' = drift s))"

definition only_removes :: "QuicLossDetection \<Rightarrow> QuicLossDetection \<Rightarrow> bool" where
  "only_removes s s' =
     (removal s s' \<and> (\<exists>es. emitted s' = emitted s @ es \<and> list_all is_RETRANSMIT_PACKET es))"

section \<open>Examples\<close>

text \<open>
  An RTT estimator without a sample; retransmittable packets of the application data
  space and of the Initial space, and an acknowledgement-only packet; a packet as
  \<open>onPacketSent\<close> stores it; acknowledgements of the two spaces.
\<close>

definition rtt0 :: RTTMeasurement where
  "rtt0 = \<lparr> latestRtt = 0, smoothedRtt = 0, rttVar = 0, minRtt = None, maxAckDelay = 0 \<rparr>"

definition app_packet :: "nat \<Rightarrow> BasePacket" where
  "app_packet n =
     \<lparr> getPacketType = PacketType_Protected1RTT, getPacketNumber = n,
       pkt_isRetransmittable = True, pkt_isHandshake = False \<rparr>"

definition initial_packet :: "nat \<Rightarrow> BasePacket" where
  "initial_packet n =
     \<lparr> getPacketType = PacketType_Initial, getPacketNumber = n,
       pkt_isRetransmittable = True, pkt_isHandshake = True \<rparr>"

definition ack_only_packet :: "nat \<Rightarrow> BasePacket" where
  "ack_only_packet n =
     \<lparr> getPacketType = PacketType_Protected1RTT, getPacketNumber = n,
       pkt_isRetransmittable = False, pkt_isHandshake = False \<rparr>"

definition sent_at :: "number \<Rightarrow> BasePacket \<Rightarrow> SentPacket" where
  "sent_at now p = \<lparr> packet = p, time = now, isRetransmittable = pkt_isRetransmittable p \<rparr>"

definition app_ack :: "nat \<Rightarrow> nat list \<Rightarrow> AckFrame" where
  "app_ack largest numbers =
     \<lparr> getCryptoLevel = Some (OTHER_EncryptionLevel 0), getLargestAcknowledged = largest,
       determineAckedPacketNumbers = numbers, getAckDelay = 0 \<rparr>"

definition initial_ack :: "nat \<Rightarrow> nat list \<Rightarrow> AckFrame" where
  "initial_ack largest numbers =
     \<lparr> getCryptoLevel = Some INITIAL, getLargestAcknowledged = largest,
       determineAckedPacketNumbers = numbers, getAckDelay = 0 \<rparr>"

text \<open>One packet is sent; then it is acknowledged.\<close>

definition state_one_sent :: QuicLossDetection where
  "state_one_sent = run [OnPacketSent 0 (app_packet 0)] (QuicLossDetection_new rtt0)"

definition state_acked_once :: QuicLossDetection where
  "state_acked_once =
     run [OnPacketSent 0 (app_packet 0), OnAckReceived 100 (app_ack 0 [0])]
       (QuicLossDetection_new rtt0)"

text \<open>
  A packet of the application data space is sent and sent again as a probe when the
  alarm fires; an Initial packet is sent and retransmitted when the alarm fires; a
  second Initial packet is sent.
\<close>

definition state_counters_raised :: QuicLossDetection where
  "state_counters_raised =
     run [OnPacketSent 0 (app_packet 0), AlarmFires 50,
          OnPacketSent 60 (initial_packet 0), AlarmFires 300,
          OnPacketSent 310 (initial_packet 1)] (QuicLossDetection_new rtt0)"

text \<open>
  Six packets of the application data space are sent, numbered 0 to 5, and an
  acknowledgement of packet 4 alone arrives.
\<close>

definition state_S2 :: QuicLossDetection where
  "state_S2 =
     run [OnPacketSent 0 (app_packet 0), OnPacketSent 1 (app_packet 1),
          OnPacketSent 2 (app_packet 2), OnPacketSent 3 (app_packet 3),
          OnPacketSent 4 (app_packet 4), OnPacketSent 5 (app_packet 5),
          OnAckReceived 1000 (app_ack 4 [4])] (QuicLossDetection_new rtt0)"

text \<open>A packet is sent and \<open>reset\<close> is called; then a second packet is sent.\<close>

definition state_sent_then_reset :: QuicLossDetection where
  "state_sent_then_reset =
     run [OnPacketSent 0 (app_packet 0), Reset] (QuicLossDetection_new rtt0)"

definition state_stale_counter :: QuicLossDetection where
  "state_stale_counter =
     run [OnPacketSent 0 (app_packet 0), Reset, OnPacketSent 1 (app_packet 1)]
       (QuicLossDetection_new rtt0)"

text \<open>
  The state in which \<open>onPacketSent\<close> calls \<open>setLossDetectionAlarm\<close> for an Initial
  packet that is the first packet sent.
\<close>

definition state_crypto_sent :: QuicLossDetection where
  "state_crypto_sent =
     (QuicLossDetection_new rtt0)
       \<lparr>cryptoOutstanding := 1, ackElicitingPacketsOutstanding := 1\<rparr>"

text \<open>
  Two Initial packets are sent at time 0, and an acknowledgement of the first one
  arrives at time 40.
\<close>

definition state_crypto_acked :: QuicLossDetection where
  "state_crypto_acked =
     run [OnPacketSent 0 (initial_packet 0), OnPacketSent 0 (initial_packet 1),
          OnAckReceived 40 (initial_ack 0 [0])] (QuicLossDetection_new rtt0)"

text \<open>
  Four packets of the application data space are sent; the second one is not
  retransmittable.
\<close>

definition state_four_sent :: QuicLossDetection where
  "state_four_sent =
     run [OnPacketSent 0 (app_packet 0), OnPacketSent 1 (ack_only_packet 1),
          OnPacketSent 2 (app_packet 2), OnPacketSent 3 (app_packet 3)]
       (QuicLossDetection_new rtt0)"

text \<open>
  Collaborators, a connection and a header for the examples of the header handler:
  no AEAD function changes the bytes, \<open>decodePn\<close> gives the pair \<open>decoded\<close>, and
  \<open>validateVersion\<close> gives \<open>negotiated\<close>.
\<close>

definition example_collaborators :: "Version option \<Rightarrow> nat \<times> nat \<Rightarrow> Collaborators" where
  "example_collaborators negotiated decoded =
     \<lparr> validateVersion = (\<lambda>v h. negotiated),
       protected0RTTPnDecrypt = (\<lambda>pne h full e. pne),
       protectedHandshakePnDecrypt = (\<lambda>pne h full e. pne),
       clearTextPnDecrypt = (\<lambda>dcid pne h full e. pne),
       protected1RTTPnDecrypt = (\<lambda>pne h full e. pne),
       decodePn = (\<lambda>pn. decoded),
       adjustNumber = adjustNumber_spec,
       toBuffer = (\<lambda>v n. replicate n 0) \<rparr>"

definition example_connection :: "EndpointType \<Rightarrow> HandshakeState \<Rightarrow> nat option \<Rightarrow> Connection" where
  "example_connection endpoint hs highest =
     \<lparr> getEndpointType = endpoint, conn_getVersion = 19, getHandshakeState = hs,
       getInitialDestConnectionID = [], conn_getSpinBit = False,
       getHighestReceivedNumber = (\<lambda>space. highest) \<rparr>"

definition example_header :: "HeaderType \<Rightarrow> LongHeaderType \<Rightarrow> bool \<Rightarrow> HeaderOffset" where
  "example_header form t spin =
     \<lparr> header = \<lparr> getHeaderType = form, lh_getPacketType = t, getVersion = 7,
                  getPayloadLength = 100, getSpinBit = spin, hdr_getPacketNumber = 0,
                  getPacketNumberSize = 1, getParsedBuffer = [64, 0, 0, 0, 0] \<rparr>,
       offset = 5 \<rparr>"

section \<open>Properties of the loss detector\<close>

subsection \<open>What the steps leave unchanged\<close>

lemma removeFromSentPackets_frame:
  "emitted (removeFromSentPackets space k s) = emitted s"
  "rttMeasurer (removeFromSentPackets space k s) = rttMeasurer s"
  "lossTime (removeFromSentPackets space k s) = lossTime s"
  "ptoCount (removeFromSentPackets space k s) = ptoCount s"
  "cryptoCount (removeFromSentPackets space k s) = cryptoCount s"
  "lossDetectionAlarm (removeFromSentPackets space k s) = lossDetectionAlarm s"
  "largestAckedPacket (removeFromSentPackets space k s) = largestAckedPacket s"
  by (simp_all add: removeFromSentPackets_def Let_def split: option.splits)

lemma setLossDetectionAlarm_frame:
  "emitted (setLossDetectionAlarm s) = emitted s"
  "rttMeasurer (setLossDetectionAlarm s) = rttMeasurer s"
  "sentPackets (setLossDetectionAlarm s) = sentPackets s"
  "ackElicitingPacketsOutstanding (setLossDetectionAlarm s) = ackElicitingPacketsOutstanding s"
  "cryptoOutstanding (setLossDetectionAlarm s) = cryptoOutstanding s"
  "ptoCount (setLossDetectionAlarm s) = ptoCount s"
  "cryptoCount (setLossDetectionAlarm s) = cryptoCount s"
  "lossTime (setLossDetectionAlarm s) = lossTime s"
  "largestAckedPacket (setLossDetectionAlarm s) = largestAckedPacket s"
  by (simp_all add: setLossDetectionAlarm_def Let_def)

text \<open>
  The loop of \<open>detectLostPackets\<close> runs over no key, so the method clears the loss time
  of the space and does nothing else.
\<close>

lemma detectLostPackets_eq:
  "detectLostPackets now space s = s\<lparr>lossTime := (lossTime s)(space := 0)\<rparr>"
  by (simp add: detectLostPackets_def Object_keys_of_method_sendPackets_def)

subsection \<open>detectLostPackets\<close>

text \<open>
  C1. The claim: after \<open>detect_lost_packets\<close> of a space, a packet of the space has
  been removed and reported in one packets-lost emission exactly when it is older than
  the loss delay or its number is at most the largest acknowledged number minus 3, and
  the loss time of the space is the least sending time plus loss delay of the surviving
  packets below the largest acknowledged number. The code does not do so: in the state
  after packets 0 to 5 were sent and packet 4 was acknowledged, the largest acknowledged
  number is 4 and the numbers of packets 0 and 1 are at most \<open>lostPN\<close>, which is
  4 - 3, yet \<open>detectLostPackets\<close> leaves the map of the space as it is, emits nothing
  and leaves the loss time unset.
\<close>

theorem detectLostPackets_S2:
  "largestAckedPacket state_S2 Space_ApplicationData = 4
   \<and> lostPN_of Space_ApplicationData state_S2 = 1
   \<and> map key_of (sentPackets state_S2 Space_ApplicationData) = [0, 1, 2, 3, 5]
   \<and> sentPackets (detectLostPackets 1000 Space_ApplicationData state_S2) Space_ApplicationData
       = sentPackets state_S2 Space_ApplicationData
   \<and> emitted (detectLostPackets 1000 Space_ApplicationData state_S2) = emitted state_S2
   \<and> lossTime (detectLostPackets 1000 Space_ApplicationData state_S2) Space_ApplicationData = 0"
proof -
  have "largestAckedPacket state_S2 Space_ApplicationData = 4"
    unfolding state_S2_def by code_simp
  moreover have "lostPN_of Space_ApplicationData state_S2 = 1"
    unfolding state_S2_def by code_simp
  moreover have "map key_of (sentPackets state_S2 Space_ApplicationData) = [0, 1, 2, 3, 5]"
    unfolding state_S2_def by code_simp
  ultimately show ?thesis
    by (simp add: detectLostPackets_eq)
qed

text \<open>
  C4, as amended. The loss delay of \<open>detectLostPackets\<close> is 9/8 times the larger of
  the latest and the smoothed RTT, with no lower bound; packets sent at or before the
  current time minus this delay count as lost by time.
\<close>

theorem lossDelay_value:
  "lossDelay_of s = 9 / 8 * max (latestRtt (rttMeasurer s)) (smoothedRtt (rttMeasurer s))
   \<and> lostSendTime_of now s
       = now - 9 / 8 * max (latestRtt (rttMeasurer s)) (smoothedRtt (rttMeasurer s))"
  by (simp add: lossDelay_of_def lostSendTime_of_def kTimeThreshold_def)

text \<open>
  C4 as stated fails: with a latest and a smoothed RTT of 8 ms the loss delay is 9 ms,
  not 50 ms.
\<close>

theorem lossDelay_floor_counterexample:
  "lossDelay_of (QuicLossDetection_new (rtt0\<lparr>latestRtt := 8, smoothedRtt := 8\<rparr>))
     \<noteq> max (9 / 8 * max (latestRtt (rtt0\<lparr>latestRtt := 8, smoothedRtt := 8\<rparr>))
                          (smoothedRtt (rtt0\<lparr>latestRtt := 8, smoothedRtt := 8\<rparr>))) 50"
  by (simp add: lossDelay_of_def kTimeThreshold_def QuicLossDetection_new_def rtt0_def)

subsection \<open>reset\<close>

text \<open>
  C2, as amended. After \<open>reset\<close> the three maps of sent packets are empty and the alarm
  is not running; \<open>reset\<close> leaves \<open>cryptoCount\<close> and \<open>ptoCount\<close> as they were.
\<close>

theorem reset_effect:
  "(\<forall>space. sentPackets (reset s) space = [])
   \<and> \<not> Alarm_isRunning (lossDetectionAlarm (reset s))
   \<and> cryptoCount (reset s) = cryptoCount s
   \<and> ptoCount (reset s) = ptoCount s"
  by (simp add: reset_def Alarm_reset_def Alarm_isRunning_def)

text \<open>
  C2 as stated fails: after a probe timeout, a crypto retransmission and one more
  Initial packet, each of the four counters is 1, and each is still 1 after \<open>reset\<close>.
\<close>

theorem reset_counters_counterexample:
  "cryptoCount (reset state_counters_raised) = 1
   \<and> ptoCount (reset state_counters_raised) = 1
   \<and> ackElicitingPacketsOutstanding (reset state_counters_raised) = 1
   \<and> cryptoOutstanding (reset state_counters_raised) = 1"
  unfolding state_counters_raised_def by code_simp

subsection \<open>setLossDetectionAlarm in the crypto retransmission mode\<close>

text \<open>
  C3, as amended. When \<open>setLossDetectionAlarm\<close> runs with ack-eliciting packets and
  crypto packets counted outstanding, an alarm that is already running is left as it
  is, and an alarm that is not running is started for the duration of the crypto
  retransmission mode.
\<close>

theorem crypto_alarm:
  assumes "ackElicitingPacketsOutstanding s > 0" and "cryptoOutstanding s > 0"
  shows "lossDetectionAlarm (setLossDetectionAlarm s) =
           (if Alarm_isRunning (lossDetectionAlarm s) then lossDetectionAlarm s
            else Some (crypto_duration s))"
  using assms
  by (simp add: setLossDetectionAlarm_def alarmDuration_and_time_def Let_def crypto_duration_def
       Alarm_start_def kInitialRTT_def kGranularity_def mult.commute)

theorem crypto_alarm_witness:
  "ackElicitingPacketsOutstanding state_crypto_sent > 0
   \<and> cryptoOutstanding state_crypto_sent > 0
   \<and> lossDetectionAlarm (setLossDetectionAlarm state_crypto_sent) = Some 200"
proof -
  have a: "ackElicitingPacketsOutstanding state_crypto_sent > 0"
    unfolding state_crypto_sent_def by code_simp
  have c: "cryptoOutstanding state_crypto_sent > 0"
    unfolding state_crypto_sent_def by code_simp
  have d: "crypto_duration state_crypto_sent = 200"
    unfolding state_crypto_sent_def by code_simp
  have r: "\<not> Alarm_isRunning (lossDetectionAlarm state_crypto_sent)"
    unfolding state_crypto_sent_def by code_simp
  from crypto_alarm [OF a c] r d a c show ?thesis by simp
qed

text \<open>
  C3 as stated fails: after two Initial packets were sent and the first one was
  acknowledged with a round trip of 40 ms, one crypto packet is still outstanding and
  the crypto retransmission mode gives 80 ms, but the alarm that was started for 200 ms
  when the first packet was sent is still running, and \<open>setLossDetectionAlarm\<close>
  leaves it at 200 ms.
\<close>

theorem crypto_alarm_running_counterexample:
  "ackElicitingPacketsOutstanding state_crypto_acked > 0
   \<and> cryptoOutstanding state_crypto_acked > 0
   \<and> lossDetectionAlarm (setLossDetectionAlarm state_crypto_acked) = Some 200
   \<and> crypto_duration state_crypto_acked = 80
   \<and> lossDetectionAlarm (setLossDetectionAlarm state_crypto_acked)
       \<noteq> Some (crypto_duration state_crypto_acked)"
  unfolding state_crypto_acked_def by code_simp

text \<open>
  The base time that the source computes (the local \<open>time\<close>) has no effect: the state
  after \<open>setLossDetectionAlarm\<close> does not depend on the time at which the last crypto
  packet was sent.
\<close>

lemma setLossDetectionAlarm_ignores_time:
  "lossDetectionAlarm (setLossDetectionAlarm (s\<lparr>timeOfLastSentCryptoPacket := t\<rparr>))
     = lossDetectionAlarm (setLossDetectionAlarm s)"
proof -
  have "getEarliestLossTime (s\<lparr>timeOfLastSentCryptoPacket := t\<rparr>) = getEarliestLossTime s"
    by (simp add: getEarliestLossTime_def getEarliestLossTime_step_def)
  then have "fst (alarmDuration_and_time (s\<lparr>timeOfLastSentCryptoPacket := t\<rparr>))
               = fst (alarmDuration_and_time s)"
    by (simp add: alarmDuration_and_time_def Let_def)
  then show ?thesis
    by (simp add: setLossDetectionAlarm_def Let_def)
qed

subsection \<open>onAckReceived and the RTT estimator\<close>

lemma onSentPacketAcked_frame:
  "rttMeasurer (onSentPacketAcked s p) = rttMeasurer s"
  "emitted (onSentPacketAcked s p) = emitted s @ (if pkt_isRetransmittable p then [PACKET_ACKED p] else [])"
  by (simp_all add: onSentPacketAcked_def Let_def removeFromSentPackets_frame emit_def)

lemma foldl_onSentPacketAcked_frame:
  "rttMeasurer (foldl onSentPacketAcked s ps) = rttMeasurer s"
  "emitted (foldl onSentPacketAcked s ps) = emitted s @ map PACKET_ACKED (filter pkt_isRetransmittable ps)"
  by (induction ps arbitrary: s) (simp_all add: onSentPacketAcked_frame)

lemma updateRtt_frame:
  "sentPackets (updateRtt now a s) = sentPackets s"
  by (simp add: updateRtt_def Let_def emit_def split: option.splits)

lemma not_CALL_PACKET_ACKED: "filter is_CALL_updateRTT (map PACKET_ACKED ps) = []"
  by (induction ps) simp_all

lemma onAckReceived_emitted:
  "emitted (onAckReceived now ackFrame s) =
     emitted s
     @ (case lookup_sent (sentPackets s (findPacketSpaceFromAckFrame ackFrame))
               (getLargestAcknowledged ackFrame) of
          None \<Rightarrow> []
        | Some sp \<Rightarrow> if isRetransmittable sp then [CALL_updateRTT ackFrame sp] else [])
     @ map PACKET_ACKED (filter pkt_isRetransmittable (determineNewlyAckedPackets ackFrame s))"
proof -
  define s1 where "s1 = s\<lparr>largestAckedPacket := (largestAckedPacket s)(findPacketSpaceFromAckFrame ackFrame :=
                   max (getLargestAcknowledged ackFrame) (largestAckedPacket s (findPacketSpaceFromAckFrame ackFrame)))\<rparr>"
  have d: "determineNewlyAckedPackets ackFrame (updateRtt now ackFrame s1) = determineNewlyAckedPackets ackFrame s"
    by (simp add: determineNewlyAckedPackets_def updateRtt_frame s1_def)
  have e: "emitted (updateRtt now ackFrame s1) = emitted s
     @ (case lookup_sent (sentPackets s (findPacketSpaceFromAckFrame ackFrame))
               (getLargestAcknowledged ackFrame) of
          None \<Rightarrow> []
        | Some sp \<Rightarrow> if isRetransmittable sp then [CALL_updateRTT ackFrame sp] else [])"
    by (simp add: updateRtt_def Let_def emit_def s1_def split: option.splits)
  show ?thesis
    unfolding onAckReceived_def Let_def s1_def [symmetric]
    by (simp add: setLossDetectionAlarm_frame detectLostPackets_eq foldl_onSentPacketAcked_frame d e)
qed

lemma onAckReceived_rttMeasurer:
  "rttMeasurer (onAckReceived now ackFrame s) =
     (case lookup_sent (sentPackets s (findPacketSpaceFromAckFrame ackFrame))
               (getLargestAcknowledged ackFrame) of
        None \<Rightarrow> rttMeasurer s
      | Some sp \<Rightarrow> if isRetransmittable sp
                   then updateRTT now ackFrame sp (rttMeasurer s) else rttMeasurer s)"
proof -
  define s1 where "s1 = s\<lparr>largestAckedPacket := (largestAckedPacket s)(findPacketSpaceFromAckFrame ackFrame :=
                   max (getLargestAcknowledged ackFrame) (largestAckedPacket s (findPacketSpaceFromAckFrame ackFrame)))\<rparr>"
  have e: "rttMeasurer (updateRtt now ackFrame s1) = (case lookup_sent (sentPackets s (findPacketSpaceFromAckFrame ackFrame))
               (getLargestAcknowledged ackFrame) of
        None \<Rightarrow> rttMeasurer s
      | Some sp \<Rightarrow> if isRetransmittable sp
                   then updateRTT now ackFrame sp (rttMeasurer s) else rttMeasurer s)"
    by (simp add: updateRtt_def Let_def emit_def s1_def split: option.splits)
  show ?thesis
    unfolding onAckReceived_def Let_def s1_def [symmetric]
    by (simp add: setLossDetectionAlarm_frame detectLostPackets_eq foldl_onSentPacketAcked_frame e)
qed

text \<open>
  C7. While an acknowledgement is processed, \<open>updateRTT\<close> of the RTT estimator is called
  once if the map of the space of the acknowledgement holds, on entry, a sent packet
  under the largest acknowledged number and that packet is ack-eliciting, and is not
  called otherwise; the state of the estimator afterwards is the result of that call,
  or the state before. In particular an acknowledgement whose largest acknowledged
  packet is no longer in the map leaves the estimator as it was.
\<close>

theorem rtt_update_iff:
  "filter is_CALL_updateRTT (new_effects s (onAckReceived now ackFrame s))
     = (case lookup_sent (sentPackets s (findPacketSpaceFromAckFrame ackFrame))
               (getLargestAcknowledged ackFrame) of
          None \<Rightarrow> []
        | Some sp \<Rightarrow> if isRetransmittable sp then [CALL_updateRTT ackFrame sp] else [])
   \<and> rttMeasurer (onAckReceived now ackFrame s)
     = (case lookup_sent (sentPackets s (findPacketSpaceFromAckFrame ackFrame))
               (getLargestAcknowledged ackFrame) of
          None \<Rightarrow> rttMeasurer s
        | Some sp \<Rightarrow> if isRetransmittable sp
                     then updateRTT now ackFrame sp (rttMeasurer s) else rttMeasurer s)
   \<and> (lookup_sent (sentPackets s (findPacketSpaceFromAckFrame ackFrame))
               (getLargestAcknowledged ackFrame) = None
        \<longrightarrow> rttMeasurer (onAckReceived now ackFrame s) = rttMeasurer s)"
  by (simp add: new_effects_def onAckReceived_emitted onAckReceived_rttMeasurer not_CALL_PACKET_ACKED
        split: option.splits)

text \<open>
  The first acknowledgement of packet 0 calls \<open>updateRTT\<close> and sets the smoothed RTT; a
  second acknowledgement of the same packet, 400 ms later, calls nothing and leaves the
  estimator as it was.
\<close>

theorem rtt_update_iff_witness:
  "filter is_CALL_updateRTT
      (new_effects state_one_sent (onAckReceived 100 (app_ack 0 [0]) state_one_sent))
     = [CALL_updateRTT (app_ack 0 [0]) (sent_at 0 (app_packet 0))]
   \<and> smoothedRtt (rttMeasurer (onAckReceived 100 (app_ack 0 [0]) state_one_sent)) = 100
   \<and> lookup_sent (sentPackets state_acked_once Space_ApplicationData) 0 = None
   \<and> filter is_CALL_updateRTT
        (new_effects state_acked_once (onAckReceived 500 (app_ack 0 [0]) state_acked_once)) = []
   \<and> rttMeasurer (onAckReceived 500 (app_ack 0 [0]) state_acked_once) = rttMeasurer state_acked_once"
proof -
  have sp: "findPacketSpaceFromAckFrame (app_ack 0 [0]) = Space_ApplicationData"
           "getLargestAcknowledged (app_ack 0 [0]) = 0"
    by (simp_all add: app_ack_def findPacketSpaceFromAckFrame_def)
  have l1: "lookup_sent (sentPackets state_one_sent Space_ApplicationData) 0
              = Some (sent_at 0 (app_packet 0))"
    unfolding state_one_sent_def by code_simp
  have f: "isRetransmittable (sent_at 0 (app_packet 0))"
    by code_simp
  have r: "smoothedRtt (updateRTT 100 (app_ack 0 [0]) (sent_at 0 (app_packet 0))
                          (rttMeasurer state_one_sent)) = 100"
    unfolding state_one_sent_def by code_simp
  have l2: "lookup_sent (sentPackets state_acked_once Space_ApplicationData) 0 = None"
    unfolding state_acked_once_def by code_simp
  from rtt_update_iff [of state_one_sent 100 "app_ack 0 [0]"]
       rtt_update_iff [of state_acked_once 500 "app_ack 0 [0]"]
  show ?thesis
    by (simp add: sp l1 l2 f r)
qed

subsection \<open>sendPackets\<close>

lemma lookup_sent_Some:
  "lookup_sent m k = Some sp \<Longrightarrow> key_of sp = k \<and> sp \<in> set m"
  by (auto simp: lookup_sent_def find_Some_iff)

lemma lookup_sent_None_iff:
  "lookup_sent m k = None \<longleftrightarrow> k \<notin> set (Object_keys m)"
  by (auto simp: lookup_sent_def find_None_iff Object_keys_def)

lemma lookup_sent_mid:
  "key_of x \<notin> key_of ` set pre \<Longrightarrow> lookup_sent (pre @ x # rest) (key_of x) = Some x"
  by (induction pre) (auto simp: lookup_sent_def)

lemma delete_sent_absent:
  "k \<notin> key_of ` set m \<Longrightarrow> delete_sent k m = m"
  by (induction m) (auto simp: delete_sent_def)

lemma delete_sent_append:
  "delete_sent k (xs @ ys) = delete_sent k xs @ delete_sent k ys"
  by (simp add: delete_sent_def)

lemma delete_sent_mid:
  assumes "distinct (map key_of (pre @ x # rest))"
  shows "delete_sent (key_of x) (pre @ x # rest) = pre @ rest"
proof -
  have "key_of x \<notin> key_of ` set pre" "key_of x \<notin> key_of ` set rest"
    using assms by auto
  then have "delete_sent (key_of x) pre = pre" "delete_sent (key_of x) rest = rest"
    by (simp_all add: delete_sent_absent)
  moreover have "delete_sent (key_of x) (x # rest) = delete_sent (key_of x) rest"
    by (simp add: delete_sent_def)
  ultimately show ?thesis
    by (simp add: delete_sent_append)
qed

lemma probed_Nil: "probed space [] s = s"
  by (simp add: probed_def)

lemma probed_Cons: "probed space ys (probed space [x] s) = probed space (x # ys) s"
  by (simp add: probed_def conj_commute)

lemma remove_is_probed:
  assumes "lookup_sent (sentPackets s space) k = Some x" and "pkt_isRetransmittable (packet x)"
  shows "removeFromSentPackets space (getPacketNumber (packet x)) (retransmitPacket x s)
           = probed space [x] s"
proof -
  have k: "getPacketNumber (packet x) = k"
    using lookup_sent_Some [OF assms(1)] by (simp add: key_of_def)
  have l: "lookup_sent (sentPackets (retransmitPacket x s) space) k = Some x"
    using assms by (simp add: retransmitPacket_def emit_def)
  show ?thesis
    unfolding removeFromSentPackets_def k l
    using assms(2) k
    by (simp add: retransmitPacket_def emit_def probed_def delete_sent_def Let_def key_of_def)
qed

lemma probed_sentPackets:
  "sentPackets (probed space chosen s) space
     = filter (\<lambda>sp. key_of sp \<notin> set (map key_of chosen)) (sentPackets s space)"
  "space' \<noteq> space \<Longrightarrow> sentPackets (probed space chosen s) space' = sentPackets s space'"
  by (simp_all add: probed_def)

lemma probed_frame:
  "emitted (probed space chosen s) = emitted s @ map (\<lambda>sp. RETRANSMIT_PACKET (packet sp)) chosen"
  "ackElicitingPacketsOutstanding (probed space chosen s)
     = ackElicitingPacketsOutstanding s - int (length chosen)"
  "cryptoOutstanding (probed space chosen s)
     = cryptoOutstanding s - int (length (filter (\<lambda>sp. pkt_isHandshake (packet sp)) chosen))"
  "ptoCount (probed space chosen s) = ptoCount s"
  "cryptoCount (probed space chosen s) = cryptoCount s"
  "lossTime (probed space chosen s) = lossTime s"
  "lossDetectionAlarm (probed space chosen s) = lossDetectionAlarm s"
  "rttMeasurer (probed space chosen s) = rttMeasurer s"
  "largestAckedPacket (probed space chosen s) = largestAckedPacket s"
  by (simp_all add: probed_def)

lemma probed_alarm:
  "probed space chosen (s\<lparr>lossDetectionAlarm := a\<rparr>) = (probed space chosen s)\<lparr>lossDetectionAlarm := a\<rparr>"
  by (simp add: probed_def)

text \<open>
  The loop of \<open>sendPackets\<close> over the keys of one space, from any position in the map
  on: it sends the first retransmittable packets that are still allowed.
\<close>

lemma sendPackets_while_probed:
  assumes "sentPackets s space = pre @ rest"
      and "distinct (map key_of (pre @ rest))"
      and "sendCount < amount"
  shows "sendPackets_while amount space (map key_of rest) sendCount s =
           (probed space (take (amount - sendCount)
                            (filter (\<lambda>sp. pkt_isRetransmittable (packet sp)) rest)) s,
            sendCount + length (take (amount - sendCount)
                            (filter (\<lambda>sp. pkt_isRetransmittable (packet sp)) rest)),
            amount - sendCount \<le> length (filter (\<lambda>sp. pkt_isRetransmittable (packet sp)) rest))"
  using assms
proof (induction rest arbitrary: s sendCount pre)
  case Nil
  then show ?case by (simp add: probed_Nil)
next
  case (Cons x rest)
  have notin: "key_of x \<notin> key_of ` set pre"
    using Cons.prems(2) by auto
  have look: "lookup_sent (sentPackets s space) (key_of x) = Some x"
    unfolding Cons.prems(1) by (rule lookup_sent_mid [OF notin])
  show ?case
  proof (cases "pkt_isRetransmittable (packet x)")
    case False
    have "sendPackets_while amount space (map key_of rest) sendCount s =
           (probed space (take (amount - sendCount)
                            (filter (\<lambda>sp. pkt_isRetransmittable (packet sp)) rest)) s,
            sendCount + length (take (amount - sendCount)
                            (filter (\<lambda>sp. pkt_isRetransmittable (packet sp)) rest)),
            amount - sendCount \<le> length (filter (\<lambda>sp. pkt_isRetransmittable (packet sp)) rest))"
      by (rule Cons.IH [of s "pre @ [x]" sendCount]) (use Cons.prems in simp_all)
    with False look show ?thesis by simp
  next
    case True
    define s2 where "s2 = probed space [x] s"
    have rem: "removeFromSentPackets space (getPacketNumber (packet x)) (retransmitPacket x s) = s2"
      unfolding s2_def by (rule remove_is_probed [OF look True])
    have map2: "sentPackets s2 space = pre @ rest"
    proof -
      have "sentPackets s2 space = delete_sent (key_of x) (pre @ x # rest)"
        by (simp add: s2_def probed_sentPackets Cons.prems(1) delete_sent_def)
      then show ?thesis using delete_sent_mid [OF Cons.prems(2)] by simp
    qed
    have dist: "distinct (map key_of (pre @ rest))"
      using Cons.prems(2) by simp
    obtain n where n: "amount - sendCount = Suc n"
      using Cons.prems(3) by (cases "amount - sendCount") simp_all
    show ?thesis
    proof (cases "sendCount + 1 = amount")
      case last: True
      then have "n = 0" using n by simp
      with True look rem last n show ?thesis
        by (simp add: s2_def)
    next
      case more: False
      then have lt: "sendCount + 1 < amount" using Cons.prems(3) by simp
      have n': "amount - (sendCount + 1) = n" using n by simp
      have "sendPackets_while amount space (map key_of rest) (sendCount + 1) s2 =
           (probed space (take n (filter (\<lambda>sp. pkt_isRetransmittable (packet sp)) rest)) s2,
            sendCount + 1 + length (take n (filter (\<lambda>sp. pkt_isRetransmittable (packet sp)) rest)),
            n \<le> length (filter (\<lambda>sp. pkt_isRetransmittable (packet sp)) rest))"
        using Cons.IH [OF map2 dist lt] unfolding n' .
      with True look rem more n show ?thesis
        by (simp add: s2_def probed_Cons)
    qed
  qed
qed

lemma sendPackets_while_all:
  assumes "distinct (Object_keys (sentPackets s space))" and "sendCount < amount"
  shows "sendPackets_while amount space (Object_keys (sentPackets s space)) sendCount s =
           (probed space (take (amount - sendCount) (filter retr (sentPackets s space))) s,
            sendCount + length (take (amount - sendCount) (filter retr (sentPackets s space))),
            amount - sendCount \<le> length (filter retr (sentPackets s space)))"
  using sendPackets_while_probed [of s space "[]" "sentPackets s space" sendCount amount] assms
  by (simp add: Object_keys_def retr_def [abs_def])

lemma sendPackets_for_step:
  assumes "distinct (Object_keys (sentPackets s space))" and "sendCount < amount"
  shows "sendPackets_for amount (space # spaces) sendCount s =
           (if amount - sendCount \<le> length (filter retr (sentPackets s space))
            then probed space (take (amount - sendCount) (filter retr (sentPackets s space))) s
            else sendPackets_for amount spaces (sendCount + length (filter retr (sentPackets s space)))
                   (probed space (filter retr (sentPackets s space)) s))"
  by (simp add: sendPackets_while_all [OF assms])

lemma filter_tag: "filter (\<lambda>e. fst e = a) (map (Pair b) xs) = (if a = b then map (Pair b) xs else [])"
  by (induction xs) auto

lemma pto_probes_split:
  "pto_probes s =
     map (Pair Space_Initial) (take 2 (filter retr (sentPackets s Space_Initial)))
     @ map (Pair Space_Handshake)
         (take (2 - length (filter retr (sentPackets s Space_Initial)))
            (filter retr (sentPackets s Space_Handshake)))
     @ map (Pair Space_ApplicationData)
         (take (2 - length (filter retr (sentPackets s Space_Initial))
                  - length (filter retr (sentPackets s Space_Handshake)))
            (filter retr (sentPackets s Space_ApplicationData)))"
  by (simp add: pto_probes_def outstanding_def all_spaces_def filter_map comp_def take_map
        retr_def [abs_def])

lemma chosen_in_eq:
  "chosen_in Space_Initial s = take 2 (filter retr (sentPackets s Space_Initial))"
  "chosen_in Space_Handshake s =
     take (2 - length (filter retr (sentPackets s Space_Initial)))
       (filter retr (sentPackets s Space_Handshake))"
  "chosen_in Space_ApplicationData s =
     take (2 - length (filter retr (sentPackets s Space_Initial))
             - length (filter retr (sentPackets s Space_Handshake)))
       (filter retr (sentPackets s Space_ApplicationData))"
  by (simp_all add: chosen_in_def pto_probes_split filter_tag comp_def)

lemma pto_probes_chosen:
  "pto_probes s =
     map (Pair Space_Initial) (chosen_in Space_Initial s)
     @ map (Pair Space_Handshake) (chosen_in Space_Handshake s)
     @ map (Pair Space_ApplicationData) (chosen_in Space_ApplicationData s)"
  unfolding chosen_in_eq by (rule pto_probes_split)

lemma sendPackets_two:
  assumes "\<And>space. distinct (Object_keys (sentPackets s space))"
  shows "sendPackets 2 s =
           probed Space_ApplicationData (chosen_in Space_ApplicationData s)
             (probed Space_Handshake (chosen_in Space_Handshake s)
                (probed Space_Initial (chosen_in Space_Initial s) s))"
proof -
  let ?rI = "filter retr (sentPackets s Space_Initial)"
  let ?rH = "filter retr (sentPackets s Space_Handshake)"
  let ?rA = "filter retr (sentPackets s Space_ApplicationData)"
  have stepI: "sendPackets 2 s =
      (if 2 \<le> length ?rI then probed Space_Initial (take 2 ?rI) s
       else sendPackets_for 2 [Space_Handshake, Space_ApplicationData] (length ?rI)
              (probed Space_Initial ?rI s))"
    unfolding sendPackets_def all_spaces_def
    using sendPackets_for_step [of s Space_Initial 0 2 "[Space_Handshake, Space_ApplicationData]"] assms
    by simp
  show ?thesis
  proof (cases "2 \<le> length ?rI")
    case True
    then show ?thesis
      unfolding stepI chosen_in_eq by (simp add: probed_Nil)
  next
    case shortI: False
    define s1 where "s1 = probed Space_Initial ?rI s"
    have s1H: "sentPackets s1 Space_Handshake = sentPackets s Space_Handshake"
      and s1A: "sentPackets s1 Space_ApplicationData = sentPackets s Space_ApplicationData"
      by (simp_all add: s1_def probed_sentPackets)
    have d1: "distinct (Object_keys (sentPackets s1 Space_Handshake))"
      unfolding s1H by (rule assms)
    have lt: "length ?rI < 2" using shortI by simp
    have first: "sendPackets 2 s = sendPackets_for 2 [Space_Handshake, Space_ApplicationData] (length ?rI) s1"
      unfolding stepI s1_def using shortI by simp
    have stepH: "sendPackets_for 2 [Space_Handshake, Space_ApplicationData] (length ?rI) s1 =
      (if 2 - length ?rI \<le> length ?rH then probed Space_Handshake (take (2 - length ?rI) ?rH) s1
       else sendPackets_for 2 [Space_ApplicationData] (length ?rI + length ?rH)
              (probed Space_Handshake ?rH s1))"
      using sendPackets_for_step [OF d1 lt, of "[Space_ApplicationData]"] by (simp add: s1H)
    show ?thesis
    proof (cases "2 - length ?rI \<le> length ?rH")
      case True
      then have "sendPackets 2 s = probed Space_Handshake (take (2 - length ?rI) ?rH) s1"
        unfolding first stepH by simp
      then show ?thesis
        unfolding chosen_in_eq s1_def
        using True shortI lt by (simp add: probed_Nil)
    next
      case shortH: False
      define s2 where "s2 = probed Space_Handshake ?rH s1"
      have s2A: "sentPackets s2 Space_ApplicationData = sentPackets s Space_ApplicationData"
        by (simp add: s2_def probed_sentPackets s1A)
      have d2: "distinct (Object_keys (sentPackets s2 Space_ApplicationData))"
        unfolding s2A by (rule assms)
      have lt2: "length ?rI + length ?rH < 2" using shortH lt by simp
      have second: "sendPackets 2 s = sendPackets_for 2 [Space_ApplicationData] (length ?rI + length ?rH) s2"
        unfolding first stepH s2_def using shortH by simp
      have third: "sendPackets_for 2 [Space_ApplicationData] (length ?rI + length ?rH) s2
           = probed Space_ApplicationData (take (2 - (length ?rI + length ?rH)) ?rA) s2"
        using sendPackets_for_step [OF d2 lt2, of "[]"] by (simp add: s2A)
      have "sendPackets 2 s
           = probed Space_ApplicationData (take (2 - (length ?rI + length ?rH)) ?rA) s2"
        unfolding second third ..
      then show ?thesis
        unfolding chosen_in_eq s2_def s1_def
        using shortI shortH by simp
    qed
  qed
qed

lemma sendPackets_two_after:
  assumes "\<And>space. distinct (Object_keys (sentPackets s space))"
  shows "sendPackets 2 s = after_probes s"
  unfolding after_probes_def by (rule sendPackets_two [OF assms])

lemma chosen_in_alarm:
  "chosen_in space (s\<lparr>lossDetectionAlarm := a\<rparr>) = chosen_in space s"
  by (simp add: chosen_in_def pto_probes_def outstanding_def)

lemma after_probes_emitted:
  "emitted (after_probes s)
     = emitted s @ map (\<lambda>e. RETRANSMIT_PACKET (packet (snd e))) (pto_probes s)"
  by (simp add: after_probes_def probed_frame pto_probes_chosen [of s] comp_def)

lemma after_probes_counters:
  "ackElicitingPacketsOutstanding (after_probes s)
     = ackElicitingPacketsOutstanding s - int (length (pto_probes s))"
  "cryptoOutstanding (after_probes s)
     = cryptoOutstanding s
       - int (length (filter (\<lambda>e. pkt_isHandshake (packet (snd e))) (pto_probes s)))"
  by (simp_all add: after_probes_def probed_frame pto_probes_chosen [of s] filter_map comp_def)

lemma after_probes_frame:
  "ptoCount (after_probes s) = ptoCount s"
  "cryptoCount (after_probes s) = cryptoCount s"
  "lossTime (after_probes s) = lossTime s"
  "lossDetectionAlarm (after_probes s) = lossDetectionAlarm s"
  "rttMeasurer (after_probes s) = rttMeasurer s"
  "largestAckedPacket (after_probes s) = largestAckedPacket s"
  by (simp_all add: after_probes_def probed_frame)

lemma after_probes_sentPackets:
  "sentPackets (after_probes s) space
     = filter (\<lambda>sp. key_of sp \<notin> set (map key_of (chosen_in space s))) (sentPackets s space)"
  by (cases space) (simp_all add: after_probes_def probed_sentPackets)

lemma after_probes_alarm:
  "after_probes (s\<lparr>lossDetectionAlarm := a\<rparr>) = (after_probes s)\<lparr>lossDetectionAlarm := a\<rparr>"
  by (simp add: after_probes_def chosen_in_alarm probed_alarm)

subsection \<open>The alarm fires in the probe timeout mode\<close>

lemma getEarliestLossTime_zero:
  assumes "lossTime s Space_Initial = 0" "lossTime s Space_Handshake = 0"
          "lossTime s Space_ApplicationData = 0"
  shows "getEarliestLossTime s = (0, Space_Initial)"
  using assms by (simp add: getEarliestLossTime_def getEarliestLossTime_step_def)

lemma alarm_TIMEOUT_pto:
  assumes "\<not> 0 < cryptoOutstanding s"
      and "lossTime s Space_Initial = 0" "lossTime s Space_Handshake = 0"
          "lossTime s Space_ApplicationData = 0"
      and "\<And>space. distinct (Object_keys (sentPackets s space))"
  shows "alarm_TIMEOUT now s =
           setLossDetectionAlarm ((after_probes s)\<lparr>lossDetectionAlarm := None, ptoCount := ptoCount s + 1\<rparr>)"
proof -
  define s0 where "s0 = s\<lparr>lossDetectionAlarm := Alarm_reset (lossDetectionAlarm s)\<rparr>"
  have e: "getEarliestLossTime s0 = (0, Space_Initial)"
    by (rule getEarliestLossTime_zero) (simp_all add: s0_def assms)
  have c: "\<not> 0 < cryptoOutstanding s0"
    using assms(1) by (simp add: s0_def)
  have two: "sendTwoPackets s0 = (after_probes s)\<lparr>lossDetectionAlarm := None\<rparr>"
    unfolding sendTwoPackets_def s0_def Alarm_reset_def after_probes_alarm [symmetric]
    by (rule sendPackets_two_after) (simp add: assms(5))
  show ?thesis
    unfolding alarm_TIMEOUT_def s0_def [symmetric] onLossDetectionAlarm_def Let_def e
    using c by (simp add: two after_probes_frame)
qed

lemma setLossDetectionAlarm_fresh:
  "lossDetectionAlarm s = None \<Longrightarrow>
   lossDetectionAlarm (setLossDetectionAlarm s) =
     (if ackElicitingPacketsOutstanding s = 0 then None
      else Some (fst (alarmDuration_and_time s)))"
  by (simp add: setLossDetectionAlarm_def Alarm_reset_def Alarm_isRunning_def Alarm_start_def Let_def)

lemma getEarliestLossTime_alarm:
  "getEarliestLossTime (s\<lparr>lossDetectionAlarm := a\<rparr>) = getEarliestLossTime s"
  by (simp add: getEarliestLossTime_def getEarliestLossTime_step_def)

lemma alarmDuration_and_time_alarm:
  "alarmDuration_and_time (s\<lparr>lossDetectionAlarm := a\<rparr>) = alarmDuration_and_time s"
  by (simp add: alarmDuration_and_time_def getEarliestLossTime_alarm Let_def)

lemma alarmDuration_and_time_set:
  "alarmDuration_and_time (setLossDetectionAlarm s) = alarmDuration_and_time s"
  by (simp add: setLossDetectionAlarm_def Let_def alarmDuration_and_time_alarm)

lemma sent_wf_distinct:
  "sent_wf s \<Longrightarrow> distinct (Object_keys (sentPackets s space))"
  by (cases space) (simp_all add: sent_wf_def all_spaces_def sent_wf_space_def)

text \<open>
  C6. When the alarm fires while no crypto packet is counted outstanding and no loss
  time is set, the loss detector emits one retransmission for each of the first two
  retransmittable sent packets in the order Initial, Handshake, application data, so at
  most two; it raises \<open>ptoCount\<close> by one; and it ends by running
  \<open>setLossDetectionAlarm\<close>, which starts the alarm again unless no ack-eliciting packet
  is counted outstanding any more.
\<close>

theorem pto_fires:
  assumes "cryptoOutstanding s = 0"
      and "lossTime s Space_Initial = 0 \<and> lossTime s Space_Handshake = 0
           \<and> lossTime s Space_ApplicationData = 0"
      and "sent_wf s"
  shows "new_effects s (alarm_TIMEOUT now s)
           = map (\<lambda>e. RETRANSMIT_PACKET (packet (snd e))) (pto_probes s)
         \<and> length (new_effects s (alarm_TIMEOUT now s)) \<le> 2
         \<and> ptoCount (alarm_TIMEOUT now s) = ptoCount s + 1
         \<and> alarm_TIMEOUT now s
             = setLossDetectionAlarm
                 ((sendTwoPackets (s\<lparr>lossDetectionAlarm := None\<rparr>))\<lparr>ptoCount := ptoCount s + 1\<rparr>)
         \<and> lossDetectionAlarm (alarm_TIMEOUT now s)
             = (if ackElicitingPacketsOutstanding (alarm_TIMEOUT now s) = 0 then None
                else Some (fst (alarmDuration_and_time (alarm_TIMEOUT now s))))"
proof -
  have d: "\<And>space. distinct (Object_keys (sentPackets s space))"
    by (rule sent_wf_distinct [OF assms(3)])
  have c: "\<not> 0 < cryptoOutstanding s" using assms(1) by simp
  define s1 where "s1 = (after_probes s)\<lparr>lossDetectionAlarm := None, ptoCount := ptoCount s + 1\<rparr>"
  have t: "alarm_TIMEOUT now s = setLossDetectionAlarm s1"
    unfolding s1_def using alarm_TIMEOUT_pto [OF c _ _ _ d] assms(2) by simp
  have two: "sendTwoPackets (s\<lparr>lossDetectionAlarm := None\<rparr>) = (after_probes s)\<lparr>lossDetectionAlarm := None\<rparr>"
    unfolding sendTwoPackets_def after_probes_alarm [symmetric]
    by (rule sendPackets_two_after) (simp add: d)
  have e: "emitted (alarm_TIMEOUT now s)
             = emitted s @ map (\<lambda>e. RETRANSMIT_PACKET (packet (snd e))) (pto_probes s)"
    unfolding t by (simp add: setLossDetectionAlarm_frame s1_def after_probes_emitted)
  have n: "new_effects s (alarm_TIMEOUT now s)
           = map (\<lambda>e. RETRANSMIT_PACKET (packet (snd e))) (pto_probes s)"
    by (simp add: new_effects_def e)
  have l: "length (pto_probes s) \<le> 2"
    by (simp add: pto_probes_def)
  have p: "ptoCount (alarm_TIMEOUT now s) = ptoCount s + 1"
    unfolding t by (simp add: setLossDetectionAlarm_frame s1_def)
  have q: "alarm_TIMEOUT now s
             = setLossDetectionAlarm
                 ((sendTwoPackets (s\<lparr>lossDetectionAlarm := None\<rparr>))\<lparr>ptoCount := ptoCount s + 1\<rparr>)"
    unfolding t s1_def two by simp
  have a: "lossDetectionAlarm (alarm_TIMEOUT now s)
             = (if ackElicitingPacketsOutstanding (alarm_TIMEOUT now s) = 0 then None
                else Some (fst (alarmDuration_and_time (alarm_TIMEOUT now s))))"
    unfolding t
    using setLossDetectionAlarm_fresh [of s1]
    by (simp add: alarmDuration_and_time_set setLossDetectionAlarm_frame s1_def)
  from n l p q a show ?thesis by simp
qed

text \<open>
  Of the four packets sent, numbers 0 and 2 are sent as probes: number 1 is not
  retransmittable and number 3 would be the third.
\<close>

theorem pto_fires_witness:
  "cryptoOutstanding state_four_sent = 0
   \<and> (lossTime state_four_sent Space_Initial = 0 \<and> lossTime state_four_sent Space_Handshake = 0
      \<and> lossTime state_four_sent Space_ApplicationData = 0)
   \<and> sent_wf state_four_sent
   \<and> new_effects state_four_sent (alarm_TIMEOUT 50 state_four_sent)
       = [RETRANSMIT_PACKET (app_packet 0), RETRANSMIT_PACKET (app_packet 2)]
   \<and> ptoCount (alarm_TIMEOUT 50 state_four_sent) = 1
   \<and> lossDetectionAlarm (alarm_TIMEOUT 50 state_four_sent) = Some 100"
proof -
  have h1: "cryptoOutstanding state_four_sent = 0"
    unfolding state_four_sent_def by code_simp
  have h2: "lossTime state_four_sent Space_Initial = 0 \<and> lossTime state_four_sent Space_Handshake = 0
      \<and> lossTime state_four_sent Space_ApplicationData = 0"
    unfolding state_four_sent_def by code_simp
  have h3: "sent_wf state_four_sent"
    unfolding state_four_sent_def by code_simp
  have pp: "map (\<lambda>e. RETRANSMIT_PACKET (packet (snd e))) (pto_probes state_four_sent)
              = [RETRANSMIT_PACKET (app_packet 0), RETRANSMIT_PACKET (app_packet 2)]"
    unfolding state_four_sent_def by code_simp
  have pc: "ptoCount state_four_sent = 0"
    unfolding state_four_sent_def by code_simp
  have ae: "ackElicitingPacketsOutstanding (alarm_TIMEOUT 50 state_four_sent) = 1"
    unfolding state_four_sent_def by code_simp
  have du: "fst (alarmDuration_and_time (alarm_TIMEOUT 50 state_four_sent)) = 100"
    unfolding state_four_sent_def by code_simp
  note fires = pto_fires [OF h1 h2 h3, of 50]
  have a: "new_effects state_four_sent (alarm_TIMEOUT 50 state_four_sent)
             = map (\<lambda>e. RETRANSMIT_PACKET (packet (snd e))) (pto_probes state_four_sent)"
    using fires by blast
  have b: "ptoCount (alarm_TIMEOUT 50 state_four_sent) = ptoCount state_four_sent + 1"
    using fires by blast
  have c: "lossDetectionAlarm (alarm_TIMEOUT 50 state_four_sent)
             = (if ackElicitingPacketsOutstanding (alarm_TIMEOUT 50 state_four_sent) = 0 then None
                else Some (fst (alarmDuration_and_time (alarm_TIMEOUT 50 state_four_sent))))"
    using fires by blast
  show ?thesis
    unfolding a b c by (simp add: pp pc ae du h1 h2 h3)
qed

subsection \<open>Steps that only remove sent packets\<close>

lemma shrinks_refl: "shrinks s s"
  unfolding shrinks_def by (rule exI [of _ "\<lambda>space sp. True"]) simp

lemma shrinks_same: "sentPackets s' = sentPackets s \<Longrightarrow> shrinks s s'"
  unfolding shrinks_def by (rule exI [of _ "\<lambda>space sp. True"]) simp

lemma shrinks_trans:
  assumes "shrinks s s'" and "shrinks s' s''"
  shows "shrinks s s''"
proof -
  from assms(1) obtain k1 where k1: "\<And>space. sentPackets s' space = filter (k1 space) (sentPackets s space)"
    unfolding shrinks_def by blast
  from assms(2) obtain k2 where k2: "\<And>space. sentPackets s'' space = filter (k2 space) (sentPackets s' space)"
    unfolding shrinks_def by blast
  show ?thesis
    unfolding shrinks_def
    by (rule exI [of _ "\<lambda>space sp. k1 space sp \<and> k2 space sp"]) (simp add: k1 k2 conj_commute)
qed

lemma shrinks_removeFromSentPackets: "shrinks s (removeFromSentPackets space k s)"
proof (cases "lookup_sent (sentPackets s space) k")
  case None
  then show ?thesis by (simp add: removeFromSentPackets_def shrinks_refl)
next
  case (Some found)
  show ?thesis
    unfolding shrinks_def
    by (rule exI [of _ "\<lambda>space' sp. space' \<noteq> space \<or> key_of sp \<noteq> k"])
       (simp add: removeFromSentPackets_def Some Let_def delete_sent_def)
qed

lemma sent_wf_iff: "sent_wf s \<longleftrightarrow> (\<forall>space. sent_wf_space space (sentPackets s space))"
proof
  assume w: "sent_wf s"
  show "\<forall>space. sent_wf_space space (sentPackets s space)"
  proof
    fix space
    show "sent_wf_space space (sentPackets s space)"
      using w by (cases space) (simp_all add: sent_wf_def all_spaces_def)
  qed
next
  assume "\<forall>space. sent_wf_space space (sentPackets s space)"
  then show "sent_wf s" by (simp add: sent_wf_def all_spaces_def)
qed

lemma sent_wf_space_filter: "sent_wf_space space m \<Longrightarrow> sent_wf_space space (filter P m)"
  by (simp add: sent_wf_space_def Object_keys_def distinct_map_filter list_all_iff)

lemma sent_wf_shrinks:
  assumes "sent_wf s" and "shrinks s s'"
  shows "sent_wf s'"
proof -
  from assms(2) obtain keep where k: "\<And>space. sentPackets s' space = filter (keep space) (sentPackets s space)"
    unfolding shrinks_def by blast
  show ?thesis
    unfolding sent_wf_iff k using assms(1) by (simp add: sent_wf_iff sent_wf_space_filter)
qed

lemma count_same: "sentPackets s' = sentPackets s \<Longrightarrow> count_ackEliciting s' = count_ackEliciting s"
  by (simp add: count_ackEliciting_def)

lemma count_update:
  "sentPackets s' = (sentPackets s)(space := m) \<Longrightarrow>
   count_ackEliciting s'
     = count_ackEliciting s - int (length (filter isRetransmittable (sentPackets s space)))
       + int (length (filter isRetransmittable m))"
  by (cases space) (simp_all add: count_ackEliciting_def all_spaces_def)

lemma removeFromSentPackets_sentPackets:
  "sentPackets (removeFromSentPackets space k s) =
     (case lookup_sent (sentPackets s space) k of
        None \<Rightarrow> sentPackets s
      | Some found \<Rightarrow> (sentPackets s)(space := delete_sent k (sentPackets s space)))"
  by (simp add: removeFromSentPackets_def Let_def split: option.splits)

lemma lookup_sent_split:
  assumes "lookup_sent m k = Some found"
  shows "\<exists>pre post. m = pre @ found # post \<and> key_of found = k"
proof -
  from lookup_sent_Some [OF assms] have "found \<in> set m" "key_of found = k" by simp_all
  then show ?thesis by (meson split_list)
qed

lemma delete_sent_found:
  assumes "distinct (Object_keys m)" and "lookup_sent m k = Some found"
  shows "int (length (filter isRetransmittable (delete_sent k m)))
           = int (length (filter isRetransmittable m)) - (if isRetransmittable found then 1 else 0)"
proof -
  from lookup_sent_split [OF assms(2)] obtain pre post where
    m: "m = pre @ found # post" and k: "key_of found = k" by blast
  have "delete_sent k m = pre @ post"
    using delete_sent_mid [of pre found post] assms(1) unfolding m k [symmetric] Object_keys_def
    by simp
  then show ?thesis by (simp add: m)
qed

lemma drift_removeFromSentPackets:
  assumes "sent_wf s"
  shows "drift (removeFromSentPackets space k s) = drift s"
proof (cases "lookup_sent (sentPackets s space) k")
  case None
  then show ?thesis by (simp add: removeFromSentPackets_def)
next
  case (Some found)
  have w: "sent_wf_space space (sentPackets s space)"
    using assms by (simp add: sent_wf_iff)
  have d: "distinct (Object_keys (sentPackets s space))"
    using w by (simp add: sent_wf_space_def)
  have f: "isRetransmittable found = pkt_isRetransmittable (packet found)"
    using w lookup_sent_Some [OF Some] by (simp add: sent_wf_space_def list_all_iff)
  have m: "sentPackets (removeFromSentPackets space k s)
             = (sentPackets s)(space := delete_sent k (sentPackets s space))"
    by (simp add: removeFromSentPackets_sentPackets Some)
  have c: "count_ackEliciting (removeFromSentPackets space k s)
             = count_ackEliciting s - (if isRetransmittable found then 1 else 0)"
    unfolding count_update [OF m] delete_sent_found [OF d Some] by simp
  have a: "ackElicitingPacketsOutstanding (removeFromSentPackets space k s)
             = ackElicitingPacketsOutstanding s - (if isRetransmittable found then 1 else 0)"
    by (simp add: removeFromSentPackets_def Some Let_def f)
  show ?thesis
    unfolding drift_def c a by simp
qed

lemma removal_refl: "removal s s"
  by (simp add: removal_def shrinks_refl)

lemma removal_same:
  assumes "sentPackets s' = sentPackets s"
      and "ackElicitingPacketsOutstanding s' = ackElicitingPacketsOutstanding s"
  shows "removal s s'"
  using assms(2) count_same [OF assms(1)] shrinks_same [OF assms(1)]
  by (simp add: removal_def drift_def)

lemma removal_trans:
  assumes "removal s s'" and "removal s' s''"
  shows "removal s s''"
proof -
  have a: "shrinks s s'" and b: "shrinks s' s''"
    using assms by (simp_all add: removal_def)
  have "drift s'' = drift s" if w: "sent_wf s"
  proof -
    have "sent_wf s'" by (rule sent_wf_shrinks [OF w a])
    then show ?thesis using assms w by (simp add: removal_def)
  qed
  then show ?thesis
    using shrinks_trans [OF a b] by (simp add: removal_def)
qed

lemma removal_removeFromSentPackets: "removal s (removeFromSentPackets space k s)"
  by (simp add: removal_def shrinks_removeFromSentPackets drift_removeFromSentPackets)

lemma only_removes_refl: "only_removes s s"
  by (simp add: only_removes_def removal_refl)

lemma only_removes_same:
  "sentPackets s' = sentPackets s \<Longrightarrow> emitted s' = emitted s \<Longrightarrow>
   ackElicitingPacketsOutstanding s' = ackElicitingPacketsOutstanding s \<Longrightarrow> only_removes s s'"
  by (simp add: only_removes_def removal_same)

lemma only_removes_trans:
  assumes "only_removes s s'" and "only_removes s' s''"
  shows "only_removes s s''"
proof -
  from assms obtain es1 es2 where
    "emitted s' = emitted s @ es1" "list_all is_RETRANSMIT_PACKET es1"
    "emitted s'' = emitted s' @ es2" "list_all is_RETRANSMIT_PACKET es2"
    unfolding only_removes_def by blast
  then have "emitted s'' = emitted s @ (es1 @ es2) \<and> list_all is_RETRANSMIT_PACKET (es1 @ es2)"
    by simp
  then have "\<exists>es. emitted s'' = emitted s @ es \<and> list_all is_RETRANSMIT_PACKET es"
    by blast
  moreover have "removal s s''"
    using assms removal_trans unfolding only_removes_def by blast
  ultimately show ?thesis
    by (simp add: only_removes_def)
qed

lemma only_removes_removeFromSentPackets: "only_removes s (removeFromSentPackets space k s)"
  by (simp add: only_removes_def removal_removeFromSentPackets removeFromSentPackets_frame)

lemma only_removes_retransmitPacket: "only_removes s (retransmitPacket sp s)"
proof -
  have "removal s (retransmitPacket sp s)"
    by (rule removal_same) (simp_all add: retransmitPacket_def emit_def)
  moreover have "\<exists>es. emitted (retransmitPacket sp s) = emitted s @ es \<and> list_all is_RETRANSMIT_PACKET es"
  proof (cases "pkt_isRetransmittable (packet sp)")
    case True
    then have "emitted (retransmitPacket sp s) = emitted s @ [RETRANSMIT_PACKET (packet sp)]
                 \<and> list_all is_RETRANSMIT_PACKET [RETRANSMIT_PACKET (packet sp)]"
      by (simp add: retransmitPacket_def emit_def)
    then show ?thesis by blast
  next
    case False
    then have "emitted (retransmitPacket sp s) = emitted s @ [] \<and> list_all is_RETRANSMIT_PACKET []"
      by (simp add: retransmitPacket_def)
    then show ?thesis by blast
  qed
  ultimately show ?thesis by (simp add: only_removes_def)
qed

lemma only_removes_retransmit_remove:
  "only_removes s (removeFromSentPackets space k (retransmitPacket sp s))"
  by (rule only_removes_trans [OF only_removes_retransmitPacket only_removes_removeFromSentPackets])

lemma only_removes_sendPackets_while:
  "only_removes s (fst (sendPackets_while amount space keys sendCount s))"
proof (induction keys arbitrary: s sendCount)
  case Nil
  show ?case by (simp add: only_removes_refl)
next
  case (Cons key keys)
  show ?case
  proof (cases "lookup_sent (sentPackets s space) key")
    case None
    then show ?thesis using Cons.IH by simp
  next
    case (Some found)
    show ?thesis
    proof (cases "pkt_isRetransmittable (packet found)")
      case False
      with Some show ?thesis using Cons.IH by simp
    next
      case True
      define s2 where "s2 = removeFromSentPackets space (getPacketNumber (packet found)) (retransmitPacket found s)"
      have r: "only_removes s s2"
        unfolding s2_def by (rule only_removes_retransmit_remove)
      show ?thesis
      proof (cases "sendCount + 1 = amount")
        case True
        with Some \<open>pkt_isRetransmittable (packet found)\<close> r show ?thesis
          by (simp add: s2_def)
      next
        case False
        have "only_removes s (fst (sendPackets_while amount space keys (sendCount + 1) s2))"
          by (rule only_removes_trans [OF r Cons.IH])
        with Some \<open>pkt_isRetransmittable (packet found)\<close> False show ?thesis
          by (simp add: s2_def)
      qed
    qed
  qed
qed

lemma only_removes_sendPackets_for:
  "only_removes s (sendPackets_for amount spaces sendCount s)"
proof (induction spaces arbitrary: s sendCount)
  case Nil
  show ?case by (simp add: only_removes_refl)
next
  case (Cons space spaces)
  obtain s1 c1 r1 where w: "sendPackets_while amount space (Object_keys (sentPackets s space)) sendCount s = (s1, c1, r1)"
    by (cases "sendPackets_while amount space (Object_keys (sentPackets s space)) sendCount s") auto
  have a: "only_removes s s1"
    using only_removes_sendPackets_while [of s amount space "Object_keys (sentPackets s space)" sendCount] w
    by simp
  show ?case
  proof (cases r1)
    case True
    with w a show ?thesis by simp
  next
    case False
    have "only_removes s (sendPackets_for amount spaces c1 s1)"
      by (rule only_removes_trans [OF a Cons.IH])
    with w False show ?thesis by simp
  qed
qed

lemma only_removes_retransmitAll_each:
  "only_removes s (retransmitAll_each space s key)"
  by (simp add: retransmitAll_each_def only_removes_refl only_removes_retransmit_remove split: option.splits)

lemma only_removes_foldl_each:
  "only_removes s (foldl (retransmitAll_each space) s keys)"
proof (induction keys arbitrary: s)
  case Nil
  show ?case by (simp add: only_removes_refl)
next
  case (Cons key keys)
  show ?case
    using only_removes_trans [OF only_removes_retransmitAll_each Cons.IH] by simp
qed

lemma only_removes_foldl_spaces:
  "only_removes s
     (foldl (\<lambda>s1 space. foldl (retransmitAll_each space) s1 (Object_keys (sentPackets s1 space))) s spaces)"
proof (induction spaces arbitrary: s)
  case Nil
  show ?case by (simp add: only_removes_refl)
next
  case (Cons space spaces)
  show ?case
    using only_removes_trans [OF only_removes_foldl_each Cons.IH] by simp
qed

lemma only_removes_onLossDetectionAlarm:
  "only_removes s (onLossDetectionAlarm now s)"
proof -
  define s1 where "s1 = (if cryptoOutstanding s > 0
                then (let s0 = retransmitAllUnackedHandshakeData s
                      in s0\<lparr>cryptoCount := cryptoCount s0 + 1\<rparr>)
                else if fst (getEarliestLossTime s) \<noteq> 0
                then detectLostPackets now (snd (getEarliestLossTime s)) s
                else (let s0 = sendTwoPackets s
                      in s0\<lparr>ptoCount := ptoCount s0 + 1\<rparr>))"
  have a: "only_removes s (retransmitAllUnackedHandshakeData s)"
    unfolding retransmitAllUnackedHandshakeData_def by (rule only_removes_foldl_spaces)
  have b: "only_removes s (sendTwoPackets s)"
    unfolding sendTwoPackets_def sendPackets_def by (rule only_removes_sendPackets_for)
  have c: "only_removes s (detectLostPackets now (snd (getEarliestLossTime s)) s)"
    by (rule only_removes_same) (simp_all add: detectLostPackets_eq)
  have a': "only_removes s ((retransmitAllUnackedHandshakeData s)\<lparr>cryptoCount := cryptoCount (retransmitAllUnackedHandshakeData s) + 1\<rparr>)"
    by (rule only_removes_trans [OF a]) (rule only_removes_same, simp_all)
  have b': "only_removes s ((sendTwoPackets s)\<lparr>ptoCount := ptoCount (sendTwoPackets s) + 1\<rparr>)"
    by (rule only_removes_trans [OF b]) (rule only_removes_same, simp_all)
  have s1: "only_removes s s1"
    unfolding s1_def Let_def using a' b' c by simp
  have "only_removes s1 (setLossDetectionAlarm s1)"
    by (rule only_removes_same) (simp_all add: setLossDetectionAlarm_frame)
  then have "only_removes s (setLossDetectionAlarm s1)"
    by (rule only_removes_trans [OF s1])
  then show ?thesis
    unfolding onLossDetectionAlarm_def Let_def s1_def .
qed

lemma only_removes_alarm_TIMEOUT:
  "only_removes s (alarm_TIMEOUT now s)"
  unfolding alarm_TIMEOUT_def
  by (rule only_removes_trans [OF _ only_removes_onLossDetectionAlarm])
     (rule only_removes_same, simp_all)

lemma removal_alarm_TIMEOUT: "removal s (alarm_TIMEOUT now s)"
  using only_removes_alarm_TIMEOUT [of s now] by (simp add: only_removes_def)

lemma removal_onSentPacketAcked: "removal s (onSentPacketAcked s p)"
  unfolding onSentPacketAcked_def Let_def
  by (rule removal_trans [OF _ removal_removeFromSentPackets])
     (rule removal_same, simp_all add: emit_def)

lemma removal_foldl_onSentPacketAcked: "removal s (foldl onSentPacketAcked s ps)"
proof (induction ps arbitrary: s)
  case Nil
  show ?case by (simp add: removal_refl)
next
  case (Cons p ps)
  show ?case
    using removal_trans [OF removal_onSentPacketAcked Cons.IH] by simp
qed

lemma updateRtt_counter:
  "ackElicitingPacketsOutstanding (updateRtt now a s) = ackElicitingPacketsOutstanding s"
  by (simp add: updateRtt_def Let_def emit_def split: option.splits)

lemma removal_onAckReceived: "removal s (onAckReceived now ackFrame s)"
proof -
  define s1 where "s1 = s\<lparr>largestAckedPacket := (largestAckedPacket s)(findPacketSpaceFromAckFrame ackFrame :=
                   max (getLargestAcknowledged ackFrame) (largestAckedPacket s (findPacketSpaceFromAckFrame ackFrame)))\<rparr>"
  define s2 where "s2 = updateRtt now ackFrame s1"
  define s3 where "s3 = foldl onSentPacketAcked s2 (determineNewlyAckedPackets ackFrame s2)"
  have a: "removal s s2"
    by (rule removal_same) (simp_all add: s2_def s1_def updateRtt_frame updateRtt_counter)
  have b: "removal s2 s3"
    unfolding s3_def by (rule removal_foldl_onSentPacketAcked)
  have c: "removal s3 (onAckReceived now ackFrame s)"
    by (rule removal_same)
       (simp_all add: onAckReceived_def Let_def s3_def s2_def s1_def setLossDetectionAlarm_frame
          detectLostPackets_eq)
  show ?thesis
    by (rule removal_trans [OF removal_trans [OF a b] c])
qed

lemma shrinks_onAckReceived: "shrinks s (onAckReceived now ackFrame s)"
  using removal_onAckReceived [of s now ackFrame] by (simp add: removal_def)

lemma shrinks_alarm_TIMEOUT: "shrinks s (alarm_TIMEOUT now s)"
  using removal_alarm_TIMEOUT [of s now] by (simp add: removal_def)

lemma shrinks_reset: "shrinks s (reset s)"
  unfolding shrinks_def by (rule exI [of _ "\<lambda>space sp. False"]) (simp add: reset_def)

subsection \<open>Well-formed maps; packets that are not in a map are not reported\<close>

lemma lookup_sent_filter_None:
  "lookup_sent m k = None \<Longrightarrow> lookup_sent (filter P m) k = None"
  by (auto simp: lookup_sent_None_iff Object_keys_def)

lemma absent_shrinks:
  assumes "lookup_sent (sentPackets s space) k = None" and "shrinks s s'"
  shows "lookup_sent (sentPackets s' space) k = None"
proof -
  from assms(2) obtain keep where k: "\<And>space. sentPackets s' space = filter (keep space) (sentPackets s space)"
    unfolding shrinks_def by blast
  show ?thesis unfolding k by (rule lookup_sent_filter_None [OF assms(1)])
qed

lemma onPacketSent_frame:
  "emitted (onPacketSent now p s) = emitted s"
  by (simp add: onPacketSent_def Let_def setLossDetectionAlarm_frame split: option.splits)

lemma onPacketSent_sentPackets:
  "sentPackets (onPacketSent now p s) =
     (case lookup_sent (sentPackets s (findPacketSpaceFromPacket p)) (getPacketNumber p) of
        Some already \<Rightarrow> sentPackets s
      | None \<Rightarrow> (sentPackets s)(findPacketSpaceFromPacket p :=
                   sentPackets s (findPacketSpaceFromPacket p)
                   @ [\<lparr> packet = p, time = now, isRetransmittable = pkt_isRetransmittable p \<rparr>]))"
  by (simp add: onPacketSent_def Let_def setLossDetectionAlarm_frame split: option.splits)

lemma sent_wf_onPacketSent:
  assumes "sent_wf s"
  shows "sent_wf (onPacketSent now p s)"
proof (cases "lookup_sent (sentPackets s (findPacketSpaceFromPacket p)) (getPacketNumber p)")
  case (Some already)
  then show ?thesis using assms by (simp add: sent_wf_iff onPacketSent_sentPackets)
next
  case None
  have new: "sent_wf_space (findPacketSpaceFromPacket p)
          (sentPackets s (findPacketSpaceFromPacket p)
             @ [\<lparr> packet = p, time = now, isRetransmittable = pkt_isRetransmittable p \<rparr>])"
    using assms None
    by (simp add: sent_wf_iff sent_wf_space_def lookup_sent_None_iff Object_keys_def key_of_def)
  show ?thesis
    unfolding sent_wf_iff onPacketSent_sentPackets None
    using assms new by (simp add: sent_wf_iff)
qed

lemma absent_onPacketSent:
  assumes "lookup_sent (sentPackets s space) k = None"
      and "\<not> (findPacketSpaceFromPacket p = space \<and> getPacketNumber p = k)"
  shows "lookup_sent (sentPackets (onPacketSent now p s) space) k = None"
  using assms
  by (auto simp: onPacketSent_sentPackets lookup_sent_None_iff Object_keys_def key_of_def
        split: option.splits)

lemma sent_wf_perform: "sent_wf s \<Longrightarrow> sent_wf (perform s opn)"
  by (cases opn)
     (simp_all add: sent_wf_onPacketSent sent_wf_shrinks [OF _ shrinks_onAckReceived]
        sent_wf_shrinks [OF _ shrinks_alarm_TIMEOUT] sent_wf_shrinks [OF _ shrinks_reset])

lemma absent_perform:
  assumes "lookup_sent (sentPackets s space) k = None" and "\<not> registers space k opn"
  shows "lookup_sent (sentPackets (perform s opn) space) k = None"
  using assms
  by (cases opn)
     (simp_all add: absent_onPacketSent absent_shrinks [OF _ shrinks_onAckReceived]
        absent_shrinks [OF _ shrinks_alarm_TIMEOUT] absent_shrinks [OF _ shrinks_reset])

lemma sent_wf_new: "sent_wf (QuicLossDetection_new rtt)"
  by (simp add: sent_wf_def sent_wf_space_def QuicLossDetection_new_def all_spaces_def Object_keys_def)

lemma sent_wf_run: "sent_wf s \<Longrightarrow> sent_wf (run ops s)"
  unfolding run_def by (induction ops arbitrary: s) (simp_all add: sent_wf_perform)

lemma determineNewlyAckedPackets_mem:
  assumes "p \<in> set (determineNewlyAckedPackets ackFrame s)"
  shows "\<exists>space sp. sp \<in> set (sentPackets s space) \<and> packet sp = p"
proof -
  from assms obtain n space where "space \<in> set all_spaces"
      and "p \<in> set (case lookup_sent (sentPackets s space) n of None \<Rightarrow> [] | Some f \<Rightarrow> [packet f])"
    unfolding determineNewlyAckedPackets_def by auto
  then obtain f where "lookup_sent (sentPackets s space) n = Some f" "packet f = p"
    by (cases "lookup_sent (sentPackets s space) n") auto
  then show ?thesis using lookup_sent_Some by blast
qed

lemma sent_wf_member:
  assumes "sent_wf s" and "sp \<in> set (sentPackets s space)"
  shows "findPacketSpaceFromPacket (packet sp) = space"
    and "isRetransmittable sp = pkt_isRetransmittable (packet sp)"
    and "lookup_sent (sentPackets s space) (getPacketNumber (packet sp)) \<noteq> None"
proof -
  have w: "sent_wf_space space (sentPackets s space)"
    using assms(1) by (simp add: sent_wf_iff)
  show "findPacketSpaceFromPacket (packet sp) = space"
    and "isRetransmittable sp = pkt_isRetransmittable (packet sp)"
    using w assms(2) by (simp_all add: sent_wf_space_def list_all_iff)
  show "lookup_sent (sentPackets s space) (getPacketNumber (packet sp)) \<noteq> None"
    using assms(2) by (auto simp: lookup_sent_None_iff Object_keys_def key_of_def)
qed

lemma not_reports_retransmissions:
  "list_all is_RETRANSMIT_PACKET es \<Longrightarrow> \<not> acked_or_lost p es"
proof (induction es)
  case Nil
  show ?case by (simp add: acked_or_lost_def)
next
  case (Cons e es)
  then show ?case by (cases e) (simp_all add: acked_or_lost_def)
qed

lemma acked_or_lost_append:
  "acked_or_lost p (es @ fs) \<longleftrightarrow> acked_or_lost p es \<or> acked_or_lost p fs"
  by (simp add: acked_or_lost_def)

lemma acked_or_lost_acks:
  "acked_or_lost p (map PACKET_ACKED ps) \<longleftrightarrow> p \<in> set ps"
  by (induction ps) (auto simp: acked_or_lost_def)

lemma quiet_perform:
  assumes "sent_wf s"
      and "lookup_sent (sentPackets s (findPacketSpaceFromPacket p)) (getPacketNumber p) = None"
  shows "\<exists>es. emitted (perform s opn) = emitted s @ es \<and> \<not> acked_or_lost p es"
proof (cases opn)
  case (OnPacketSent now q)
  then have "emitted (perform s opn) = emitted s @ [] \<and> \<not> acked_or_lost p []"
    by (simp add: onPacketSent_frame acked_or_lost_def)
  then show ?thesis by blast
next
  case (OnAckReceived now ackFrame)
  define call where "call = (case lookup_sent (sentPackets s (findPacketSpaceFromAckFrame ackFrame))
               (getLargestAcknowledged ackFrame) of
          None \<Rightarrow> []
        | Some sp \<Rightarrow> if isRetransmittable sp then [CALL_updateRTT ackFrame sp] else [])"
  define acks where "acks = map PACKET_ACKED (filter pkt_isRetransmittable (determineNewlyAckedPackets ackFrame s))"
  have e: "emitted (perform s opn) = emitted s @ (call @ acks)"
    by (simp add: OnAckReceived onAckReceived_emitted call_def acks_def)
  have c: "\<not> acked_or_lost p call"
    by (simp add: call_def acked_or_lost_def split: option.splits)
  have a: "\<not> acked_or_lost p acks"
  proof
    assume "acked_or_lost p acks"
    then have "p \<in> set (determineNewlyAckedPackets ackFrame s)"
      by (simp add: acks_def acked_or_lost_acks)
    then obtain space sp where m: "sp \<in> set (sentPackets s space)" and q: "packet sp = p"
      using determineNewlyAckedPackets_mem by blast
    have "findPacketSpaceFromPacket p = space"
      using sent_wf_member(1) [OF assms(1) m] q by simp
    moreover have "lookup_sent (sentPackets s space) (getPacketNumber p) \<noteq> None"
      using sent_wf_member(3) [OF assms(1) m] q by simp
    ultimately show False using assms(2) by simp
  qed
  from e c a have "emitted (perform s opn) = emitted s @ (call @ acks) \<and> \<not> acked_or_lost p (call @ acks)"
    by (simp add: acked_or_lost_append)
  then show ?thesis by blast
next
  case (AlarmFires now)
  from only_removes_alarm_TIMEOUT [of s now] obtain es where
    "emitted (alarm_TIMEOUT now s) = emitted s @ es" "list_all is_RETRANSMIT_PACKET es"
    unfolding only_removes_def by blast
  then have "emitted (perform s opn) = emitted s @ es \<and> \<not> acked_or_lost p es"
    by (simp add: AlarmFires not_reports_retransmissions)
  then show ?thesis by blast
next
  case Reset
  then have "emitted (perform s opn) = emitted s @ [] \<and> \<not> acked_or_lost p []"
    by (simp add: reset_def acked_or_lost_def)
  then show ?thesis by blast
qed

lemma quiet_run:
  assumes "sent_wf s"
      and "lookup_sent (sentPackets s (findPacketSpaceFromPacket p)) (getPacketNumber p) = None"
      and "\<not> list_ex (registers (findPacketSpaceFromPacket p) (getPacketNumber p)) ops"
  shows "\<exists>es. emitted (run ops s) = emitted s @ es \<and> \<not> acked_or_lost p es"
  using assms
proof (induction ops arbitrary: s)
  case Nil
  have "emitted (run [] s) = emitted s @ [] \<and> \<not> acked_or_lost p []"
    by (simp add: run_def acked_or_lost_def)
  then show ?case by blast
next
  case (Cons opn ops)
  have nr: "\<not> registers (findPacketSpaceFromPacket p) (getPacketNumber p) opn"
    and nrs: "\<not> list_ex (registers (findPacketSpaceFromPacket p) (getPacketNumber p)) ops"
    using Cons.prems(3) by simp_all
  obtain es where es: "emitted (perform s opn) = emitted s @ es" "\<not> acked_or_lost p es"
    using quiet_perform [OF Cons.prems(1) Cons.prems(2)] by blast
  have w: "sent_wf (perform s opn)"
    by (rule sent_wf_perform [OF Cons.prems(1)])
  have a: "lookup_sent (sentPackets (perform s opn) (findPacketSpaceFromPacket p)) (getPacketNumber p) = None"
    by (rule absent_perform [OF Cons.prems(2) nr])
  obtain fs where fs: "emitted (run ops (perform s opn)) = emitted (perform s opn) @ fs"
      "\<not> acked_or_lost p fs"
    using Cons.IH [OF w a nrs] by blast
  have "emitted (run (opn # ops) s) = emitted s @ (es @ fs) \<and> \<not> acked_or_lost p (es @ fs)"
    using es fs by (simp add: run_def acked_or_lost_append)
  then show ?case by blast
qed

lemma pto_probes_outstanding:
  assumes "e \<in> set (pto_probes s)"
  shows "snd e \<in> set (sentPackets s (fst e))"
    and "snd e \<in> set (chosen_in (fst e) s)"
proof -
  have "e \<in> set (outstanding s)"
    using assms by (auto simp: pto_probes_def dest: in_set_takeD)
  then show "snd e \<in> set (sentPackets s (fst e))"
    by (auto simp: outstanding_def)
  show "snd e \<in> set (chosen_in (fst e) s)"
    using assms by (force simp: chosen_in_def)
qed

lemma lookup_after_probes:
  assumes "e \<in> set (pto_probes s)"
  shows "lookup_sent (sentPackets (after_probes s) (fst e)) (key_of (snd e)) = None"
proof -
  have "key_of (snd e) \<in> key_of ` set (chosen_in (fst e) s)"
    using pto_probes_outstanding(2) [OF assms] by (rule imageI)
  then show ?thesis
    by (auto simp: after_probes_sentPackets lookup_sent_None_iff Object_keys_def)
qed

lemma run_extends:
  assumes "\<exists>es. emitted s' = emitted s @ es \<and> \<not> acked_or_lost p es"
  shows "\<not> acked_or_lost p (new_effects s s')"
  using assms by (auto simp: new_effects_def)

subsection \<open>The probes of a probe timeout\<close>

text \<open>
  What holds of the probes of a probe timeout, from a state with well-formed maps:
  the retransmissions emitted are those of the probes; every probe has left the map of
  its space; the two counters of outstanding packets have gone down by the number of
  probes and of handshake probes; in no later run that does not register the number of
  a probe in its space again is a probe reported as acknowledged or lost; the alarm
  runs afterwards exactly when the counter of ack-eliciting packets is not 0, and, when
  the counter agreed with the maps before, exactly when an ack-eliciting packet is left
  in a map.
\<close>

lemma probes_are_removed:
  assumes "cryptoOutstanding s \<le> 0"
      and "lossTime s Space_Initial = 0 \<and> lossTime s Space_Handshake = 0
           \<and> lossTime s Space_ApplicationData = 0"
      and "sent_wf s"
  shows "new_effects s (alarm_TIMEOUT now s)
           = map (\<lambda>e. RETRANSMIT_PACKET (packet (snd e))) (pto_probes s)
         \<and> (\<forall>e \<in> set (pto_probes s).
               lookup_sent (sentPackets (alarm_TIMEOUT now s) (fst e)) (key_of (snd e)) = None)
         \<and> ackElicitingPacketsOutstanding (alarm_TIMEOUT now s)
             = ackElicitingPacketsOutstanding s - int (length (pto_probes s))
         \<and> cryptoOutstanding (alarm_TIMEOUT now s)
             = cryptoOutstanding s
               - int (length (filter (\<lambda>e. pkt_isHandshake (packet (snd e))) (pto_probes s)))
         \<and> (\<forall>e \<in> set (pto_probes s). \<forall>ops.
               \<not> list_ex (registers (fst e) (key_of (snd e))) ops \<longrightarrow>
               \<not> acked_or_lost (packet (snd e))
                    (new_effects (alarm_TIMEOUT now s) (run ops (alarm_TIMEOUT now s))))
         \<and> (Alarm_isRunning (lossDetectionAlarm (alarm_TIMEOUT now s))
              \<longleftrightarrow> ackElicitingPacketsOutstanding (alarm_TIMEOUT now s) \<noteq> 0)
         \<and> (ackElicitingPacketsOutstanding s = count_ackEliciting s \<longrightarrow>
              (Alarm_isRunning (lossDetectionAlarm (alarm_TIMEOUT now s))
                \<longleftrightarrow> count_ackEliciting (alarm_TIMEOUT now s) \<noteq> 0))"
proof -
  let ?s' = "alarm_TIMEOUT now s"
  have d: "\<And>space. distinct (Object_keys (sentPackets s space))"
    by (rule sent_wf_distinct [OF assms(3)])
  have c: "\<not> 0 < cryptoOutstanding s" using assms(1) by simp
  define s1 where "s1 = (after_probes s)\<lparr>lossDetectionAlarm := None, ptoCount := ptoCount s + 1\<rparr>"
  have t: "?s' = setLossDetectionAlarm s1"
    unfolding s1_def using alarm_TIMEOUT_pto [OF c _ _ _ d] assms(2) by simp
  have sp: "sentPackets ?s' = sentPackets (after_probes s)"
    unfolding t by (simp add: setLossDetectionAlarm_frame s1_def)
  have e: "emitted ?s' = emitted s @ map (\<lambda>e. RETRANSMIT_PACKET (packet (snd e))) (pto_probes s)"
    unfolding t by (simp add: setLossDetectionAlarm_frame s1_def after_probes_emitted)
  have c1: "new_effects s ?s' = map (\<lambda>e. RETRANSMIT_PACKET (packet (snd e))) (pto_probes s)"
    by (simp add: new_effects_def e)
  have c2: "\<forall>e \<in> set (pto_probes s). lookup_sent (sentPackets ?s' (fst e)) (key_of (snd e)) = None"
    unfolding sp by (simp add: lookup_after_probes)
  have c3: "ackElicitingPacketsOutstanding ?s'
             = ackElicitingPacketsOutstanding s - int (length (pto_probes s))"
    unfolding t by (simp add: setLossDetectionAlarm_frame s1_def after_probes_counters)
  have c4: "cryptoOutstanding ?s'
             = cryptoOutstanding s
               - int (length (filter (\<lambda>e. pkt_isHandshake (packet (snd e))) (pto_probes s)))"
    unfolding t by (simp add: setLossDetectionAlarm_frame s1_def after_probes_counters)
  have w': "sent_wf ?s'"
    by (rule sent_wf_shrinks [OF assms(3) shrinks_alarm_TIMEOUT])
  have c5: "\<forall>e \<in> set (pto_probes s). \<forall>ops.
               \<not> list_ex (registers (fst e) (key_of (snd e))) ops \<longrightarrow>
               \<not> acked_or_lost (packet (snd e)) (new_effects ?s' (run ops ?s'))"
  proof (intro ballI allI impI)
    fix e ops
    assume m: "e \<in> set (pto_probes s)"
      and nr: "\<not> list_ex (registers (fst e) (key_of (snd e))) ops"
    have sp1: "findPacketSpaceFromPacket (packet (snd e)) = fst e"
      by (rule sent_wf_member(1) [OF assms(3) pto_probes_outstanding(1) [OF m]])
    have k: "getPacketNumber (packet (snd e)) = key_of (snd e)"
      by (simp add: key_of_def)
    have a: "lookup_sent (sentPackets ?s' (findPacketSpaceFromPacket (packet (snd e))))
               (getPacketNumber (packet (snd e))) = None"
      unfolding sp1 k using c2 m by blast
    have nr': "\<not> list_ex (registers (findPacketSpaceFromPacket (packet (snd e)))
                   (getPacketNumber (packet (snd e)))) ops"
      unfolding sp1 k by (rule nr)
    show "\<not> acked_or_lost (packet (snd e)) (new_effects ?s' (run ops ?s'))"
      by (rule run_extends [OF quiet_run [OF w' a nr']])
  qed
  have al: "lossDetectionAlarm ?s'
             = (if ackElicitingPacketsOutstanding s1 = 0 then None
                else Some (fst (alarmDuration_and_time s1)))"
    unfolding t by (rule setLossDetectionAlarm_fresh) (simp add: s1_def)
  have ae: "ackElicitingPacketsOutstanding ?s' = ackElicitingPacketsOutstanding s1"
    unfolding t by (simp add: setLossDetectionAlarm_frame)
  have c6: "Alarm_isRunning (lossDetectionAlarm ?s') \<longleftrightarrow> ackElicitingPacketsOutstanding ?s' \<noteq> 0"
    unfolding al ae by (simp add: Alarm_isRunning_def)
  have dr: "drift ?s' = drift s"
    using removal_alarm_TIMEOUT [of s now] assms(3) by (simp add: removal_def)
  have c7: "ackElicitingPacketsOutstanding s = count_ackEliciting s \<longrightarrow>
              (Alarm_isRunning (lossDetectionAlarm ?s') \<longleftrightarrow> count_ackEliciting ?s' \<noteq> 0)"
    using dr c6 unfolding drift_def by linarith
  from c1 c2 c3 c4 c5 c6 c7 show ?thesis by blast
qed

lemma probes_are_removed_example:
  "cryptoOutstanding state_four_sent \<le> 0
   \<and> (lossTime state_four_sent Space_Initial = 0 \<and> lossTime state_four_sent Space_Handshake = 0
      \<and> lossTime state_four_sent Space_ApplicationData = 0)
   \<and> sent_wf state_four_sent
   \<and> lookup_sent (sentPackets (alarm_TIMEOUT 50 state_four_sent) Space_ApplicationData) 0 = None
   \<and> lookup_sent (sentPackets (alarm_TIMEOUT 50 state_four_sent) Space_ApplicationData) 2 = None
   \<and> ackElicitingPacketsOutstanding (alarm_TIMEOUT 50 state_four_sent) = 1
   \<and> cryptoOutstanding (alarm_TIMEOUT 50 state_four_sent) = 0
   \<and> \<not> acked_or_lost (app_packet 0)
          (new_effects (alarm_TIMEOUT 50 state_four_sent)
             (run [OnAckReceived 200 (app_ack 3 [0, 1, 2, 3])] (alarm_TIMEOUT 50 state_four_sent)))
   \<and> Alarm_isRunning (lossDetectionAlarm (alarm_TIMEOUT 50 state_four_sent))"
proof -
  have h1: "cryptoOutstanding state_four_sent \<le> 0"
    unfolding state_four_sent_def by code_simp
  have h2: "lossTime state_four_sent Space_Initial = 0 \<and> lossTime state_four_sent Space_Handshake = 0
      \<and> lossTime state_four_sent Space_ApplicationData = 0"
    unfolding state_four_sent_def by code_simp
  have h3: "sent_wf state_four_sent"
    unfolding state_four_sent_def by code_simp
  have pp: "pto_probes state_four_sent
              = [(Space_ApplicationData, sent_at 0 (app_packet 0)),
                 (Space_ApplicationData, sent_at 2 (app_packet 2))]"
    unfolding state_four_sent_def by code_simp
  have k: "key_of (sent_at 0 (app_packet 0)) = 0" "key_of (sent_at 2 (app_packet 2)) = 2"
          "packet (sent_at 0 (app_packet 0)) = app_packet 0"
          "pkt_isHandshake (app_packet 0) = False" "pkt_isHandshake (app_packet 2) = False"
          "packet (sent_at 2 (app_packet 2)) = app_packet 2"
    by (simp_all add: key_of_def sent_at_def app_packet_def)
  have ae: "ackElicitingPacketsOutstanding state_four_sent = 3"
    unfolding state_four_sent_def by code_simp
  have co: "cryptoOutstanding state_four_sent = 0"
    unfolding state_four_sent_def by code_simp
  from probes_are_removed [OF h1 h2 h3, of 50] show ?thesis
    by (simp add: pp k ae co h2 h3)
qed

text \<open>
  C10. The claim: a packet sent as a probe leaves its map and the counters, can no
  longer be acknowledged or declared lost, and if the probes remove the last
  ack-eliciting packets then the alarm is cancelled. The code does not do the last:
  after a packet was sent, \<open>reset\<close> was called and a second packet was sent, the alarm
  fires in the probe timeout mode and the second packet is sent as a probe; the three
  maps are empty afterwards, the counter of ack-eliciting packets is 1, and the alarm
  is running.
\<close>

theorem alarm_with_stale_counter:
  "cryptoOutstanding state_stale_counter = 0
   \<and> lossTime state_stale_counter Space_Initial = 0
   \<and> lossTime state_stale_counter Space_Handshake = 0
   \<and> lossTime state_stale_counter Space_ApplicationData = 0
   \<and> new_effects state_stale_counter (alarm_TIMEOUT 60 state_stale_counter)
       = [RETRANSMIT_PACKET (app_packet 1)]
   \<and> sentPackets (alarm_TIMEOUT 60 state_stale_counter) Space_Initial = []
   \<and> sentPackets (alarm_TIMEOUT 60 state_stale_counter) Space_Handshake = []
   \<and> sentPackets (alarm_TIMEOUT 60 state_stale_counter) Space_ApplicationData = []
   \<and> ackElicitingPacketsOutstanding (alarm_TIMEOUT 60 state_stale_counter) = 1
   \<and> Alarm_isRunning (lossDetectionAlarm (alarm_TIMEOUT 60 state_stale_counter))"
  unfolding state_stale_counter_def by code_simp

subsection \<open>The counter of ack-eliciting packets\<close>

lemma onPacketSent_counter:
  "ackElicitingPacketsOutstanding (onPacketSent now p s)
     = ackElicitingPacketsOutstanding s + (if pkt_isRetransmittable p then 1 else 0)"
  by (simp add: onPacketSent_def Let_def setLossDetectionAlarm_frame split: option.splits)

lemma drift_onPacketSent:
  assumes "lookup_sent (sentPackets s (findPacketSpaceFromPacket p)) (getPacketNumber p) = None"
  shows "drift (onPacketSent now p s) = drift s"
proof -
  have m: "sentPackets (onPacketSent now p s) = (sentPackets s)(findPacketSpaceFromPacket p :=
             sentPackets s (findPacketSpaceFromPacket p)
             @ [\<lparr> packet = p, time = now, isRetransmittable = pkt_isRetransmittable p \<rparr>])"
    by (simp add: onPacketSent_sentPackets assms)
  show ?thesis
    unfolding drift_def count_update [OF m] onPacketSent_counter by simp
qed

lemma drift_reset:
  assumes "count_ackEliciting s = 0"
  shows "drift (reset s) = drift s"
proof -
  have "count_ackEliciting (reset s) = 0"
    by (simp add: count_ackEliciting_def reset_def all_spaces_def)
  then show ?thesis
    using assms by (simp add: drift_def reset_def)
qed

lemma drift_perform:
  assumes "sent_wf s" and "proper s opn"
  shows "drift (perform s opn) = drift s"
proof (cases opn)
  case (OnPacketSent now p)
  then show ?thesis using assms(2) by (simp add: drift_onPacketSent)
next
  case (OnAckReceived now ackFrame)
  then show ?thesis
    using removal_onAckReceived [of s now ackFrame] assms(1) by (simp add: removal_def)
next
  case (AlarmFires now)
  then show ?thesis
    using removal_alarm_TIMEOUT [of s now] assms(1) by (simp add: removal_def)
next
  case Reset
  then show ?thesis using assms(2) by (simp add: drift_reset)
qed

lemma drift_run:
  assumes "sent_wf s" and "well_used s ops"
  shows "drift (run ops s) = drift s"
  using assms
proof (induction ops arbitrary: s)
  case Nil
  show ?case by (simp add: run_def)
next
  case (Cons opn ops)
  have p: "proper s opn" and w: "well_used (perform s opn) ops"
    using Cons.prems(2) by simp_all
  have "drift (run ops (perform s opn)) = drift (perform s opn)"
    by (rule Cons.IH [OF sent_wf_perform [OF Cons.prems(1)] w])
  then show ?case
    using drift_perform [OF Cons.prems(1) p] by (simp add: run_def)
qed

text \<open>
  From a new loss detector, the counter agrees with the maps after every run in which
  no packet number is registered twice in a space and \<open>reset\<close> is only called while
  no ack-eliciting packet is in a map.
\<close>

lemma counter_in_step:
  assumes "well_used (QuicLossDetection_new rtt) ops"
  shows "ackElicitingPacketsOutstanding (run ops (QuicLossDetection_new rtt))
           = count_ackEliciting (run ops (QuicLossDetection_new rtt))"
proof -
  have "drift (QuicLossDetection_new rtt) = 0"
    by (simp add: drift_def count_ackEliciting_def QuicLossDetection_new_def all_spaces_def)
  then show ?thesis
    using drift_run [OF sent_wf_new assms] by (simp add: drift_def)
qed

text \<open>
  C5. The claim: after every completed operation, \<open>reset\<close> included, the counter of
  ack-eliciting packets outstanding is the number of sent packets in the three maps
  that are ack-eliciting. The code does not do so: after one ack-eliciting packet was
  sent and \<open>reset\<close> was called, the maps are empty and the counter is 1.
\<close>

theorem counter_after_reset:
  "ackElicitingPacketsOutstanding state_sent_then_reset = 1
   \<and> count_ackEliciting state_sent_then_reset = 0"
  unfolding state_sent_then_reset_def by code_simp

section \<open>Properties of the header handler\<close>

subsection \<open>The version gate\<close>

text \<open>
  C8. On a server, for a long header whose version cannot be negotiated, the handler
  throws: a \<open>QuicError\<close> with \<open>VERSION_NEGOTIATION_ERROR\<close> for an Initial packet;
  otherwise a \<open>QuickerError\<close> with \<open>IGNORE_PACKET_ERROR\<close> for a 0-RTT packet or in the
  handshake state \<open>SERVER_HELLO\<close>; otherwise a \<open>QuicError\<close> with
  \<open>PROTOCOL_VIOLATION\<close>.
\<close>

theorem version_gate:
  assumes "getEndpointType connection = Server"
      and "getHeaderType (header headerOffset) = LongHeader"
      and "validateVersion C (conn_getVersion connection) (header headerOffset) = None"
  shows "handle C connection headerOffset msg encryptingEndpoint =
           Inl (if lh_getPacketType (header headerOffset) = LongHeaderType_Initial
                then QuicError VERSION_NEGOTIATION_ERROR
                else if lh_getPacketType (header headerOffset) = LongHeaderType_Protected0RTT
                        \<or> getHandshakeState connection = SERVER_HELLO
                then QuickerError IGNORE_PACKET_ERROR
                else QuicError PROTOCOL_VIOLATION)"
  using assms by (simp add: handle_def handleClientVersion_def)

theorem version_gate_witness:
  "handle (example_collaborators None (0, 1)) (example_connection Server (OTHER_HandshakeState 0) None)
      (example_header LongHeader LongHeaderType_Initial False) [] Client
     = Inl (QuicError VERSION_NEGOTIATION_ERROR)
   \<and> handle (example_collaborators None (0, 1)) (example_connection Server (OTHER_HandshakeState 0) None)
      (example_header LongHeader LongHeaderType_Protected0RTT False) [] Client
     = Inl (QuickerError IGNORE_PACKET_ERROR)
   \<and> handle (example_collaborators None (0, 1)) (example_connection Server SERVER_HELLO None)
      (example_header LongHeader LongHeaderType_Handshake False) [] Client
     = Inl (QuickerError IGNORE_PACKET_ERROR)
   \<and> handle (example_collaborators None (0, 1)) (example_connection Server (OTHER_HandshakeState 0) None)
      (example_header LongHeader LongHeaderType_Handshake False) [] Client
     = Inl (QuicError PROTOCOL_VIOLATION)"
proof -
  let ?C = "example_collaborators None (0, 1)"
  have e: "\<And>hs. getEndpointType (example_connection Server hs None) = Server"
    by (simp add: example_connection_def)
  have h: "\<And>t. getHeaderType (header (example_header LongHeader t False)) = LongHeader"
    by (simp add: example_header_def)
  have v: "\<And>c ho. validateVersion ?C (conn_getVersion c) (header ho) = None"
    by (simp add: example_collaborators_def)
  have t: "\<And>t. lh_getPacketType (header (example_header LongHeader t False)) = t"
    by (simp add: example_header_def)
  have s: "\<And>hs. getHandshakeState (example_connection Server hs None) = hs"
    by (simp add: example_connection_def)
  show ?thesis
    using version_gate [OF e h v, of "OTHER_HandshakeState 0" LongHeaderType_Initial "[]" Client]
          version_gate [OF e h v, of "OTHER_HandshakeState 0" LongHeaderType_Protected0RTT "[]" Client]
          version_gate [OF e h v, of SERVER_HELLO LongHeaderType_Handshake "[]" Client]
          version_gate [OF e h v, of "OTHER_HandshakeState 0" LongHeaderType_Handshake "[]" Client]
    by (simp add: t s)
qed

subsection \<open>The spin bit\<close>

lemma decrypt_short:
  "getHeaderType h = ShortHeader \<Longrightarrow>
   snd (decryptPacketNumber C connection h pne full e) = PacketType_Protected1RTT"
  by (simp add: decryptPacketNumber_def)

lemma adjust_type:
  "getHeaderType (fst (snd (adjustRemotePacketNumber C connection space h))) = getHeaderType h"
  by (simp add: adjustRemotePacketNumber_def Let_def split: option.splits)

lemma adjust_spin:
  "getSpinBit (fst (snd (adjustRemotePacketNumber C connection space h))) = getSpinBit h"
  by (simp add: adjustRemotePacketNumber_def Let_def split: option.splits)

lemma adjust_highest:
  "getHighestReceivedNumber (fst (adjustRemotePacketNumber C connection space h)) space
     = (if snd (snd (adjustRemotePacketNumber C connection space h))
        then Some (hdr_getPacketNumber (fst (snd (adjustRemotePacketNumber C connection space h))))
        else getHighestReceivedNumber connection space)"
  by (simp add: adjustRemotePacketNumber_def Let_def split: option.splits)

lemma adjust_flag:
  "snd (snd (adjustRemotePacketNumber C connection space h))
     = (case getHighestReceivedNumber connection space of
          None \<Rightarrow> True
        | Some highest \<Rightarrow> highest < hdr_getPacketNumber (fst (snd (adjustRemotePacketNumber C connection space h))))"
  by (simp add: adjustRemotePacketNumber_def Let_def split: option.splits)

lemma adjust_rest:
  "getEndpointType (fst (adjustRemotePacketNumber C connection space h)) = getEndpointType connection"
  "conn_getSpinBit (fst (adjustRemotePacketNumber C connection space h)) = conn_getSpinBit connection"
  by (simp_all add: adjustRemotePacketNumber_def Let_def split: option.splits)

lemma tail_short:
  "getHeaderType h = ShortHeader \<Longrightarrow>
   handle_tail connection h flag n off =
     (handleShortHeader connection h flag, \<lparr> header = h, offset = off \<rparr>)"
  by (simp add: handle_tail_def)

lemma handleShortHeader_fields:
  "getHighestReceivedNumber (handleShortHeader connection h flag) = getHighestReceivedNumber connection"
  "conn_getSpinBit (handleShortHeader connection h flag)
     = (if flag then (if getEndpointType connection = Client then \<not> getSpinBit h else getSpinBit h)
        else conn_getSpinBit connection)"
  by (simp_all add: handleShortHeader_def Let_def)

text \<open>
  C9. For a short header whose parsed bytes hold the four bytes of the packet number
  field the handler does not throw. The packet number of the header
  it returns becomes the highest received number of the application data space exactly
  when that space had none or a lower one; in that case the spin bit of the connection
  is set, on a client to the inverse of the spin bit of the header and on a server to
  the spin bit of the header; otherwise the highest received number and the spin bit of
  the connection stay as they were.
\<close>

theorem spin_bit:
  assumes "getHeaderType (header headerOffset) = ShortHeader"
      and "4 \<le> length (getParsedBuffer (header headerOffset))"
  shows "case handle C connection headerOffset msg encryptingEndpoint of
           Inl e \<Rightarrow> False
         | Inr (connection', headerOffset') \<Rightarrow>
             (let before = getHighestReceivedNumber connection Space_ApplicationData;
                  pn = hdr_getPacketNumber (header headerOffset');
                  newHighest = (case before of None \<Rightarrow> True | Some h \<Rightarrow> h < pn)
              in getHighestReceivedNumber connection' Space_ApplicationData
                   = (if newHighest then Some pn else before)
                 \<and> conn_getSpinBit connection'
                   = (if newHighest
                      then (if getEndpointType connection = Client
                            then \<not> getSpinBit (header headerOffset)
                            else getSpinBit (header headerOffset))
                      else conn_getSpinBit connection))"
proof -
  define pne where "pne = drop (length (getParsedBuffer (header headerOffset)) - 4) (getParsedBuffer (header headerOffset))"
  define full where "full = getParsedBuffer (header headerOffset) @ drop (nat (offset headerOffset)) msg"
  define d where "d = decodePn C (fst (decryptPacketNumber C connection (header headerOffset) pne full encryptingEndpoint))"
  define h1 where "h1 = (header headerOffset)\<lparr>hdr_getPacketNumber := fst d,
      getParsedBuffer := take (length (getParsedBuffer (header headerOffset)) - 4) (getParsedBuffer (header headerOffset)) @ toBuffer C (fst d) (snd d)\<rparr>"
  define adj where "adj = adjustRemotePacketNumber C connection Space_ApplicationData h1"
  have h1t: "getHeaderType h1 = ShortHeader" "getSpinBit h1 = getSpinBit (header headerOffset)"
    using assms(1) by (simp_all add: h1_def)
  have adjt: "getHeaderType (fst (snd adj)) = ShortHeader"
    unfolding adj_def adjust_type by (rule h1t)
  have pn: "handle_unmasked C connection headerOffset msg encryptingEndpoint
      = (handleShortHeader (fst adj) (fst (snd adj)) (snd (snd adj)),
         \<lparr> header = fst (snd adj), offset = offset headerOffset - 4 + int (snd d) \<rparr>)"
    unfolding handle_unmasked_def Let_def
    using assms(1) h1t adjt
    by (simp add: decrypt_short getPacketNumberSpace_of_def tail_short
          pne_def [symmetric] full_def [symmetric] d_def [symmetric] h1_def [symmetric] adj_def [symmetric])
  have hd: "handle C connection headerOffset msg encryptingEndpoint
      = Inr (handle_unmasked C connection headerOffset msg encryptingEndpoint)"
    using assms by (simp add: handle_def handle_packetNumber_def)
  show ?thesis
    unfolding hd pn
    using h1t
    by (cases "getHighestReceivedNumber connection Space_ApplicationData")
       (simp_all add: Let_def handleShortHeader_fields adj_def adjust_highest
          adjust_flag [of C connection Space_ApplicationData h1] adjust_rest adjust_spin)
qed

text \<open>
  A client that has received number 5 receives number 7 with spin bit 0 and sets its
  spin bit to 1; when it receives number 3 with spin bit 1 instead, the highest number
  and its spin bit stay as they were.
\<close>

theorem spin_bit_witness:
  "getHeaderType (header (example_header ShortHeader LongHeaderType_Initial False)) = ShortHeader
   \<and> 4 \<le> length (getParsedBuffer (header (example_header ShortHeader LongHeaderType_Initial False)))
   \<and> (case handle (example_collaborators None (7, 1)) (example_connection Client SERVER_HELLO (Some 5))
              (example_header ShortHeader LongHeaderType_Initial False) [] Server of
         Inl e \<Rightarrow> False
       | Inr (connection', headerOffset') \<Rightarrow>
           hdr_getPacketNumber (header headerOffset') = 7
           \<and> getHighestReceivedNumber connection' Space_ApplicationData = Some 7
           \<and> conn_getSpinBit connection' = True)
   \<and> (case handle (example_collaborators None (3, 1)) (example_connection Client SERVER_HELLO (Some 5))
              (example_header ShortHeader LongHeaderType_Initial True) [] Server of
         Inl e \<Rightarrow> False
       | Inr (connection', headerOffset') \<Rightarrow>
           hdr_getPacketNumber (header headerOffset') = 3
           \<and> getHighestReceivedNumber connection' Space_ApplicationData = Some 5
           \<and> conn_getSpinBit connection' = False)"
proof -
  have h: "\<And>b. getHeaderType (header (example_header ShortHeader LongHeaderType_Initial b)) = ShortHeader"
    by (simp add: example_header_def)
  have l: "\<And>b. 4 \<le> length (getParsedBuffer (header (example_header ShortHeader LongHeaderType_Initial b)))"
    by (simp add: example_header_def)
  have a: "adjustNumber_spec 5 7 (Suc 0) = 7" by code_simp
  have b: "adjustNumber_spec 5 3 (Suc 0) = 3" by code_simp
  have pn1: "case handle (example_collaborators None (7, 1)) (example_connection Client SERVER_HELLO (Some 5))
              (example_header ShortHeader LongHeaderType_Initial False) [] Server of
         Inl e \<Rightarrow> False
       | Inr (connection', headerOffset') \<Rightarrow> hdr_getPacketNumber (header headerOffset') = 7"
    by (simp add: handle_def handle_packetNumber_def handle_unmasked_def decryptPacketNumber_def
          adjustRemotePacketNumber_def handle_tail_def getPacketNumberSpace_of_def
          example_collaborators_def example_connection_def example_header_def a Let_def)
  have pn2: "case handle (example_collaborators None (3, 1)) (example_connection Client SERVER_HELLO (Some 5))
              (example_header ShortHeader LongHeaderType_Initial True) [] Server of
         Inl e \<Rightarrow> False
       | Inr (connection', headerOffset') \<Rightarrow> hdr_getPacketNumber (header headerOffset') = 3"
    by (simp add: handle_def handle_packetNumber_def handle_unmasked_def decryptPacketNumber_def
          adjustRemotePacketNumber_def handle_tail_def getPacketNumberSpace_of_def
          example_collaborators_def example_connection_def example_header_def b Let_def)
  have c: "getHighestReceivedNumber (example_connection Client SERVER_HELLO (Some 5)) Space_ApplicationData = Some 5"
          "conn_getSpinBit (example_connection Client SERVER_HELLO (Some 5)) = False"
          "getEndpointType (example_connection Client SERVER_HELLO (Some 5)) = Client"
    by (simp_all add: example_connection_def)
  have s: "\<And>b. getSpinBit (header (example_header ShortHeader LongHeaderType_Initial b)) = b"
    by (simp add: example_header_def)
  show ?thesis
    using spin_bit [OF h [of False] l [of False], where C = "example_collaborators None (7, 1)"
            and connection = "example_connection Client SERVER_HELLO (Some 5)"
            and msg = "[]" and encryptingEndpoint = Server]
          spin_bit [OF h [of True] l [of True], where C = "example_collaborators None (3, 1)"
            and connection = "example_connection Client SERVER_HELLO (Some 5)"
            and msg = "[]" and encryptingEndpoint = Server]
          pn1 pn2
    by (auto simp add: h l c s Let_def split: sum.splits prod.splits)
qed

end
